theory Spec2Isabelle
  imports Main "HOL-Library.AList"
begin

section \<open>Values exchanged with the server\<close>

text \<open>
  The RPC layer hands the library plain Python values: \<open>None\<close>, booleans, integers,
  strings, lists and dictionaries with string keys. A dictionary is an association list
  read with \<open>map_of\<close> and written with \<open>AList.update\<close>, so that the first binding of a
  key is the one that counts. Floating-point numbers are left out.
\<close>

datatype py_value =
    VNone
  | VBool bool
  | VInt int
  | VStr string
  | VList "py_value list"
  | VDict "(string \<times> py_value) list"

text \<open>
  Every exception of the source is a constructor. \<open>RPCError\<close> carries the message
  template and the named arguments given to \<open>format\<close>; \<open>RemoteError\<close> is a failure
  reported by the transport (\<open>oerplib.error.Error\<close>); the others are the Python
  built-ins raised by operations on a value of the wrong shape.
\<close>

datatype error =
    RPCError string "(string \<times> py_value) list"
  | RemoteError string
  | SchemaError
  | TypeError
  | IndexError
  | KeyError
  | AttributeError
  | NotAllowedError string
  | ValueError
  | ValidationError
  | StopIteration

text \<open>Python truth value of an object, as tested by \<open>if x\<close>, \<open>x and y\<close>, \<open>x or y\<close>.\<close>

fun truthy :: "py_value \<Rightarrow> bool" where
  "truthy VNone = False"
| "truthy (VBool b) = b"
| "truthy (VInt i) = (i \<noteq> 0)"
| "truthy (VStr s) = (s \<noteq> [])"
| "truthy (VList xs) = (xs \<noteq> [])"
| "truthy (VDict kvs) = (kvs \<noteq> [])"

text \<open>\<open>x is False\<close>: identity with the singleton \<open>False\<close>.\<close>

fun is_False :: "py_value \<Rightarrow> bool" where
  "is_False (VBool b) = (\<not> b)"
| "is_False _ = False"

fun starts_with :: "string \<Rightarrow> string \<Rightarrow> bool" where
  "starts_with [] ys = True"
| "starts_with (x # xs) [] = False"
| "starts_with (x # xs) (y # ys) = (x = y \<and> starts_with xs ys)"

fun contains :: "string \<Rightarrow> string \<Rightarrow> bool" where
  "contains xs [] = (xs = [])"
| "contains xs (y # ys) = (starts_with xs (y # ys) \<or> contains xs ys)"

text \<open>
  \<open>key in x\<close> for a string \<open>key\<close>: key membership in a dictionary, element
  membership in a list, substring test in a string, \<open>TypeError\<close> on anything else.
\<close>

fun py_in :: "string \<Rightarrow> py_value \<Rightarrow> error + bool" where
  "py_in k (VDict kvs) = Inr (map_of kvs k \<noteq> None)"
| "py_in k (VList xs) = Inr (List.member xs (VStr k))"
| "py_in k (VStr s) = Inr (contains k s)"
| "py_in k VNone = Inl TypeError"
| "py_in k (VBool b) = Inl TypeError"
| "py_in k (VInt i) = Inl TypeError"

text \<open>
  \<open>x[key]\<close> for a string \<open>key\<close>: lookup in a dictionary (\<open>KeyError\<close> when absent);
  lists and strings want integer indices and the other values have no items.
\<close>

fun py_getitem :: "py_value \<Rightarrow> string \<Rightarrow> error + py_value" where
  "py_getitem (VDict kvs) k = (case map_of kvs k of None \<Rightarrow> Inl KeyError | Some v \<Rightarrow> Inr v)"
| "py_getitem VNone k = Inl TypeError"
| "py_getitem (VBool b) k = Inl TypeError"
| "py_getitem (VInt i) k = Inl TypeError"
| "py_getitem (VStr s) k = Inl TypeError"
| "py_getitem (VList xs) k = Inl TypeError"

text \<open>
  \<open>x[0]\<close>: the first element of a list or the first character of a string
  (\<open>IndexError\<close> when empty); a dictionary has no key \<open>0\<close> since its keys are strings.
\<close>

fun py_getitem0 :: "py_value \<Rightarrow> error + py_value" where
  "py_getitem0 (VList []) = Inl IndexError"
| "py_getitem0 (VList (x # xs)) = Inr x"
| "py_getitem0 (VStr []) = Inl IndexError"
| "py_getitem0 (VStr (c # cs)) = Inr (VStr [c])"
| "py_getitem0 (VDict kvs) = Inl KeyError"
| "py_getitem0 VNone = Inl TypeError"
| "py_getitem0 (VBool b) = Inl TypeError"
| "py_getitem0 (VInt i) = Inl TypeError"

text \<open>\<open>d.keys()\<close>, \<open>d.items()\<close> and \<open>d.values()\<close> of a dictionary: one entry per key.\<close>

definition py_items :: "(string \<times> 'a) list \<Rightarrow> (string \<times> 'a) list" where
  "py_items d = AList.clearjunk d"

definition py_keys :: "(string \<times> 'a) list \<Rightarrow> string list" where
  "py_keys d = map fst (py_items d)"

definition py_values :: "(string \<times> 'a) list \<Rightarrow> 'a list" where
  "py_values d = map snd (py_items d)"

section \<open>The model pool\<close>

text \<open>
  Modelled from the spec: the module \<open>factory\<close> is not under src/. A \<open>Factory\<close> is the
  proxy the pool caches: a mutable mapping that manages the objects created for one
  entity (\<open>keys\<close> lists them, \<open>clear\<close> forgets them) and owns the record class it
  generated, \<open>osv['class']\<close>. Proxies are objects with an identity, shared between the
  two indices of the pool, so they live in a store: a reference is a position in
  \<open>heap\<close>, and every construction allocates a new position and a new class.
  Construction introspects the entity and fails, allocating nothing, when
  introspection does; \<open>intro\<close> tells for which entity names it fails.
\<close>

record factory =
  fac_name :: string
  fac_class :: nat
  fac_keys :: "int list"

record pool =
  heap :: "factory list"
  classes :: nat
  factories_by_osv_name :: "(string \<times> nat) list"
  factories_by_osv_class :: "(nat \<times> nat) list"

type_synonym introspection = "string \<Rightarrow> error option"

definition Factory :: "introspection \<Rightarrow> pool \<Rightarrow> string \<Rightarrow> pool \<times> (error + nat)" where
  "Factory intro p osv_name =
     (case intro osv_name of
        Some e \<Rightarrow> (p, Inl e)
      | None \<Rightarrow>
          (p\<lparr>heap := heap p @ [\<lparr>fac_name = osv_name, fac_class = classes p, fac_keys = []\<rparr>],
             classes := Suc (classes p)\<rparr>,
           Inr (length (heap p))))"

text \<open>\<open>facto.osv['class']\<close>: the class of the proxy behind a reference.\<close>

definition osv_class :: "pool \<Rightarrow> nat \<Rightarrow> error + nat" where
  "osv_class p facto =
     (if facto < length (heap p) then Inr (fac_class (heap p ! facto)) else Inl AttributeError)"

text \<open>\<open>facto.clear()\<close>: the proxy forgets its objects; the proxy itself stays.\<close>

definition clear :: "pool \<Rightarrow> nat \<Rightarrow> pool \<times> (error + unit)" where
  "clear p facto =
     (if facto < length (heap p)
      then (p\<lparr>heap := (heap p)[facto := (heap p ! facto)\<lparr>fac_keys := []\<rparr>]\<rparr>, Inr ())
      else (p, Inl AttributeError))"

definition empty_pool :: pool where
  "empty_pool = \<lparr>heap = [], classes = 0, factories_by_osv_name = [], factories_by_osv_class = []\<rparr>"

text \<open>\<open>d[k]\<close> on one of the two indices: \<open>KeyError\<close> when the key is absent.\<close>

definition index_getitem :: "('k \<times> nat) list \<Rightarrow> 'k \<Rightarrow> error + nat" where
  "index_getitem d k = (case map_of d k of None \<Rightarrow> Inl KeyError | Some facto \<Rightarrow> Inr facto)"

definition get :: "introspection \<Rightarrow> pool \<Rightarrow> string \<Rightarrow> bool \<Rightarrow> pool \<times> (error + nat)" where
  "get intro p osv_name refresh =
     (if map_of (factories_by_osv_name p) osv_name = None then
        (let (p1, r) = Factory intro p osv_name
         in case r of
              Inl e \<Rightarrow> (p1, Inl e)
            | Inr facto \<Rightarrow>
                (let p2 = p1\<lparr>factories_by_osv_name :=
                              AList.update osv_name facto (factories_by_osv_name p1)\<rparr>
                 in case osv_class p2 facto of
                      Inl e \<Rightarrow> (p2, Inl e)
                    | Inr cls \<Rightarrow>
                        (let p3 = p2\<lparr>factories_by_osv_class :=
                                      AList.update cls facto (factories_by_osv_class p2)\<rparr>
                         in (p3, index_getitem (factories_by_osv_name p3) osv_name))))
      else if refresh then
        (let (p1, r) = Factory intro p osv_name
         in case r of
              Inl e \<Rightarrow> (p1, Inl e)
            | Inr facto \<Rightarrow>
                (let p2 = p1\<lparr>factories_by_osv_name :=
                              AList.update osv_name facto (factories_by_osv_name p1)\<rparr>
                 in (p2, index_getitem (factories_by_osv_name p2) osv_name)))
      else (p, index_getitem (factories_by_osv_name p) osv_name))"

definition get_by_class :: "pool \<Rightarrow> nat \<Rightarrow> error + nat" where
  "get_by_class p cls = index_getitem (factories_by_osv_class p) cls"

definition delitem :: "pool \<Rightarrow> string \<Rightarrow> pool \<times> (error + unit)" where
  "delitem p osv_name =
     (case index_getitem (factories_by_osv_name p) osv_name of
        Inl e \<Rightarrow> (p, Inl e)
      | Inr facto \<Rightarrow>
          (let (p1, r) = clear p facto
           in case r of
                Inl e \<Rightarrow> (p1, Inl e)
              | Inr u \<Rightarrow>
                  (p1\<lparr>factories_by_osv_name := AList.delete osv_name (factories_by_osv_name p1)\<rparr>,
                   Inr ())))"

definition getitem :: "introspection \<Rightarrow> pool \<Rightarrow> string \<Rightarrow> pool \<times> (error + nat)" where
  "getitem intro p osv_name = get intro p osv_name False"

definition iter :: "pool \<Rightarrow> string list" where
  "iter p = py_keys (factories_by_osv_name p)"

definition len :: "pool \<Rightarrow> nat" where
  "len p = length (py_keys (factories_by_osv_name p))"

definition setitem :: "pool \<Rightarrow> string \<Rightarrow> nat \<Rightarrow> pool \<times> (error + unit)" where
  "setitem p osv_name v = (p, Inl (NotAllowedError ''Operation not supported''))"

section \<open>The connection and the remote server\<close>

text \<open>
  Modelled from the spec: the connection object \<open>oerp\<close> (class \<open>OERP\<close>, not under src/)
  is the black box \<open>call(entity, method, args, kwargs) -> result\<close> of the spec's
  section 6, which may fail with a service error. \<open>execute\<close> is the positional call,
  \<open>execute_kw\<close> the keyword call. Each call is appended to the log \<open>calls\<close>; the
  server is a parameter that answers a call in view of the calls made before it.
\<close>

datatype rpc_call =
    Execute string string "py_value list"
  | ExecuteKw string string "py_value list" "(string \<times> py_value) list"

type_synonym server = "rpc_call list \<Rightarrow> rpc_call \<Rightarrow> error + py_value"

record oerp =
  compatible :: bool
  auto_context :: bool
  oerp_context :: py_value
  calls :: "rpc_call list"

definition execute :: "server \<Rightarrow> oerp \<Rightarrow> string \<Rightarrow> string \<Rightarrow> py_value list \<Rightarrow> oerp \<times> (error + py_value)" where
  "execute srv conn osv_name method args =
     (let c = Execute osv_name method args
      in (conn\<lparr>calls := calls conn @ [c]\<rparr>, srv (calls conn) c))"

definition execute_kw ::
  "server \<Rightarrow> oerp \<Rightarrow> string \<Rightarrow> string \<Rightarrow> py_value list \<Rightarrow> (string \<times> py_value) list \<Rightarrow> oerp \<times> (error + py_value)" where
  "execute_kw srv conn osv_name method args kwargs =
     (let c = ExecuteKw osv_name method args kwargs
      in (conn\<lparr>calls := calls conn @ [c]\<rparr>, srv (calls conn) c))"

section \<open>Field descriptors and the generated record class\<close>

text \<open>
  Modelled from the spec: the module \<open>fields\<close> is not under src/. A descriptor has the
  attributes the spec's data model lists (name, kind, label, read-only flag);
  \<open>Many2OneField\<close> is the kind \<open>RefSingle\<close>. \<open>generate_field\<close> maps the declared type
  string of a field definition to a kind and fails with a \<open>SchemaError\<close> on a type it
  does not recognise. The table of recognised type strings is the parameter \<open>kinds\<close>.
\<close>

datatype field_kind = Scalar | Text | Numeric | Boolean | Date | RefSingle | RefMany | Computed

record field =
  name :: string
  kind :: field_kind
  label :: py_value
  read_only :: bool

type_synonym kind_table = "string \<Rightarrow> field_kind option"

definition dict_get :: "py_value \<Rightarrow> string \<Rightarrow> py_value \<Rightarrow> py_value" where
  "dict_get d k dflt =
     (case d of VDict kvs \<Rightarrow> (case map_of kvs k of None \<Rightarrow> dflt | Some v \<Rightarrow> v) | _ \<Rightarrow> dflt)"

definition generate_field :: "kind_table \<Rightarrow> string \<Rightarrow> py_value \<Rightarrow> error + field" where
  "generate_field kinds field_name field_data =
     (case dict_get field_data ''type'' VNone of
        VStr t \<Rightarrow>
          (case kinds t of
             None \<Rightarrow> Inl SchemaError
           | Some k \<Rightarrow> Inr \<lparr>name = field_name, kind = k,
                           label = dict_get field_data ''string'' VNone,
                           read_only = truthy (dict_get field_data ''readonly'' (VBool False))\<rparr>)
      | _ \<Rightarrow> Inl SchemaError)"

text \<open>
  The class built by \<open>type(cls_name, (browse.BrowseRecord,), {})\<close>: its name, the
  dictionary \<open>__osv__\<close> with the entity name and the columns, and the descriptors
  installed on it later by \<open>setattr(obj.__class__, field.name, field)\<close>.
\<close>

record browse_class =
  cls_name :: string
  osv_name :: string
  columns :: "(string \<times> field) list"
  cls_attrs :: "(string \<times> field) list"

text \<open>The proxy itself: \<open>self._oerp\<close>, \<open>self._name\<close> and \<open>self._browse_class\<close>.\<close>

record osv =
  oerp_of :: oerp
  name_of :: string
  browse_class_of :: browse_class

definition fields_reserved :: "string list" where
  "fields_reserved = [''id'', ''__oerp__'', ''__osv__'', ''__data__'']"

section \<open>Dynamic method forwarding\<close>

text \<open>
  \<open>OSV.__getattr__\<close> returns the closure \<open>rpc_method\<close>; the model is the closure
  applied to the method name, the positional and the keyword arguments. It returns the
  proxy with the call log of its connection extended.
\<close>

definition named_parameters_msg :: string where
  "named_parameters_msg = ''Named parameters are not supported in compatibility mode''"

definition rpc_method ::
  "server \<Rightarrow> osv \<Rightarrow> string \<Rightarrow> py_value list \<Rightarrow> (string \<times> py_value) list \<Rightarrow> osv \<times> (error + py_value)" where
  "rpc_method srv self method args kwargs =
     (if compatible (oerp_of self) then
        (if kwargs \<noteq> [] then (self, Inl (RPCError named_parameters_msg []))
         else
           (let (conn, result) =
                  execute srv (oerp_of self) (osv_name (browse_class_of self)) method args
            in (self\<lparr>oerp_of := conn\<rparr>, result)))
      else
        (let kwargs' =
               (if auto_context (oerp_of self) \<and> map_of kwargs ''context'' = None
                then AList.update ''context'' (oerp_context (oerp_of self)) kwargs
                else kwargs);
             (conn, result) =
               execute_kw srv (oerp_of self) (osv_name (browse_class_of self)) method args kwargs'
         in (self\<lparr>oerp_of := conn\<rparr>, result)))"

section \<open>Generating the record class\<close>

text \<open>The loop of \<open>_generate_browse_class\<close> over \<open>fields_get.items()\<close>.\<close>

fun generate_fields ::
  "kind_table \<Rightarrow> (string \<times> py_value) list \<Rightarrow> (string \<times> field) list \<Rightarrow> error + (string \<times> field) list" where
  "generate_fields kinds [] cls_fields = Inr cls_fields"
| "generate_fields kinds ((field_name, field_data) # rest) cls_fields =
     (if \<not> List.member fields_reserved field_name then
        (case generate_field kinds field_name field_data of
           Inl e \<Rightarrow> Inl e
         | Inr f \<Rightarrow> generate_fields kinds rest (AList.update field_name f cls_fields))
      else generate_fields kinds rest cls_fields)"

definition name_field_data :: py_value where
  "name_field_data =
     VDict [(''type'', VStr ''text''), (''string'', VStr ''Name''), (''readonly'', VBool True)]"

text \<open>\<open>self._name.replace('.', '_')\<close>\<close>

definition class_name :: "string \<Rightarrow> string" where
  "class_name s = map (\<lambda>c. if c = CHR ''.'' then CHR ''_'' else c) s"

definition generate_browse_class ::
  "kind_table \<Rightarrow> server \<Rightarrow> oerp \<Rightarrow> string \<Rightarrow> oerp \<times> (error + browse_class)" where
  "generate_browse_class kinds srv conn nm =
     (let (conn', r) = execute srv conn nm ''fields_get'' []
      in case r of
           Inl e \<Rightarrow> (conn', Inl e)
         | Inr fields_get \<Rightarrow>
             (case fields_get of
                VDict kvs \<Rightarrow>
                  (case generate_fields kinds (py_items kvs) [] of
                     Inl e \<Rightarrow> (conn', Inl e)
                   | Inr cls_fields \<Rightarrow>
                       (case (if map_of cls_fields ''name'' = None then
                                (case generate_field kinds ''name'' name_field_data of
                                   Inl e \<Rightarrow> Inl e
                                 | Inr f \<Rightarrow> Inr (AList.update ''name'' f cls_fields))
                              else Inr cls_fields) of
                          Inl e \<Rightarrow> (conn', Inl e)
                        | Inr cls_fields' \<Rightarrow>
                            (conn', Inr \<lparr>cls_name = class_name nm, osv_name = nm,
                                         columns = cls_fields', cls_attrs = []\<rparr>)))
              | _ \<Rightarrow> (conn', Inl AttributeError)))"

text \<open>\<open>OSV.__init__\<close>\<close>

definition OSV :: "kind_table \<Rightarrow> server \<Rightarrow> oerp \<Rightarrow> string \<Rightarrow> oerp \<times> (error + osv)" where
  "OSV kinds srv conn nm =
     (let (conn', r) = generate_browse_class kinds srv conn nm
      in case r of
           Inl e \<Rightarrow> (conn', Inl e)
         | Inr cls \<Rightarrow> (conn', Inr \<lparr>oerp_of = conn', name_of = nm, browse_class_of = cls\<rparr>))"

section \<open>Records\<close>

text \<open>
  Modelled from the spec: the class \<open>BrowseRecord\<close> (module \<open>browse\<close>) is not under
  src/. A record has its \<open>id\<close>, the dictionary \<open>__data__\<close> with the entries
  \<open>context\<close>, \<open>raw_data\<close> and \<open>fields_updated\<close>, and the instance attributes
  \<open>_<field>\<close> that hold the current field values. A new record has its id, nothing
  loaded and nothing updated. The records handled by a proxy are instances of the class
  it generated, so \<open>obj.__class__\<close> and \<open>obj.__osv__\<close> are read from the proxy.
\<close>

record browse_record =
  rec_id :: py_value
  data_context :: py_value
  raw_data :: py_value
  fields_updated :: "string list"
  attrs :: "(string \<times> py_value) list"

definition new_record :: "py_value \<Rightarrow> browse_record" where
  "new_record o_id =
     \<lparr>rec_id = o_id, data_context = VNone, raw_data = VDict [], fields_updated = [], attrs = []\<rparr>"

text \<open>\<open>"_{0}".format(field_name)\<close>\<close>

definition attr_name :: "string \<Rightarrow> string" where
  "attr_name field_name = CHR ''_'' # field_name"

text \<open>
  Modelled from the spec: the descriptors are objects of the module \<open>fields\<close>, which
  is not under src/. \<open>setattr(obj, attr, v)\<close> stores \<open>v\<close> in the instance unless
  the class has a descriptor under \<open>attr\<close>; then the assignment is the field
  assignment of the spec: to a read-only field it fails with a \<open>ValidationError\<close>
  and changes nothing, to any other field it stores the value where \<open>_write_record\<close>
  reads it, the attribute \<open>_<field>\<close>, and adds the field's name to
  \<open>fields_updated\<close>. That store is a \<open>setattr\<close> again. A descriptor sits under its
  own name (\<open>setattr(obj.__class__, field.name, field)\<close>), so the name of the field
  is \<open>attr\<close>.
\<close>

function py_setattr ::
  "browse_class \<Rightarrow> browse_record \<Rightarrow> string \<Rightarrow> py_value \<Rightarrow> browse_record \<times> (error + unit)" where
  "py_setattr cls obj attr v =
     (case map_of (cls_attrs cls) attr of
        None \<Rightarrow> (obj\<lparr>attrs := AList.update attr v (attrs obj)\<rparr>, Inr ())
      | Some fld \<Rightarrow>
          (if read_only fld then (obj, Inl ValidationError)
           else
             (let (obj', r) = py_setattr cls obj (attr_name attr) v
              in case r of
                   Inl e \<Rightarrow> (obj', Inl e)
                 | Inr u \<Rightarrow>
                     (obj'\<lparr>fields_updated :=
                              (if List.member (fields_updated obj') attr then fields_updated obj'
                               else fields_updated obj' @ [attr])\<rparr>,
                      Inr ()))))"
  by pat_completeness auto
termination
proof (relation "measure (\<lambda>(cls, obj, attr, v).
         card {k \<in> fst ` set (cls_attrs cls). length attr \<le> length k})")
  show "wf (measure (\<lambda>(cls, obj, attr, v).
         card {k \<in> fst ` set (cls_attrs cls). length attr \<le> length k}))"
    by simp
next
  fix cls :: browse_class and obj :: browse_record and attr :: string and v :: py_value and fld
  assume "map_of (cls_attrs cls) attr = Some fld"
  then have "(attr, fld) \<in> set (cls_attrs cls)" by (rule map_of_SomeD)
  then have here: "attr \<in> fst ` set (cls_attrs cls)" by force
  have "attr \<in> {k \<in> fst ` set (cls_attrs cls). length attr \<le> length k}"
    using here by simp
  moreover have "attr \<notin> {k \<in> fst ` set (cls_attrs cls). length (attr_name attr) \<le> length k}"
    by (simp add: attr_name_def)
  moreover have "{k \<in> fst ` set (cls_attrs cls). length (attr_name attr) \<le> length k}
          \<subseteq> {k \<in> fst ` set (cls_attrs cls). length attr \<le> length k}"
    by (auto simp: attr_name_def)
  ultimately have "{k \<in> fst ` set (cls_attrs cls). length (attr_name attr) \<le> length k}
          \<subset> {k \<in> fst ` set (cls_attrs cls). length attr \<le> length k}"
    by blast
  then have "card {k \<in> fst ` set (cls_attrs cls). length (attr_name attr) \<le> length k}
          < card {k \<in> fst ` set (cls_attrs cls). length attr \<le> length k}"
    by (intro psubset_card_mono) simp_all
  then show "((cls, obj, attr_name attr, v), (cls, obj, attr, v))
          \<in> measure (\<lambda>(cls, obj, attr, v).
               card {k \<in> fst ` set (cls_attrs cls). length attr \<le> length k})"
    by simp
qed

declare py_setattr.simps [simp del]

text \<open>
  The loop of \<open>_reset\<close> over the descriptors: a field found in \<open>raw_data\<close> has
  its value assigned to the attribute \<open>_<field>\<close> and its descriptor installed on the
  class.
\<close>

fun reset_fields ::
  "field list \<Rightarrow> browse_class \<Rightarrow> browse_record \<Rightarrow> (browse_class \<times> browse_record) \<times> (error + unit)" where
  "reset_fields [] cls obj = ((cls, obj), Inr ())"
| "reset_fields (f # fs) cls obj =
     (case py_in (name f) (raw_data obj) of
        Inl e \<Rightarrow> ((cls, obj), Inl e)
      | Inr present \<Rightarrow>
          (if present then
             (case py_getitem (raw_data obj) (name f) of
                Inl e \<Rightarrow> ((cls, obj), Inl e)
              | Inr v \<Rightarrow>
                  (let (obj', r) = py_setattr cls obj (attr_name (name f)) v
                   in case r of
                        Inl e \<Rightarrow> ((cls, obj'), Inl e)
                      | Inr u \<Rightarrow>
                          reset_fields fs
                            (cls\<lparr>cls_attrs := AList.update (name f) f (cls_attrs cls)\<rparr>) obj'))
           else reset_fields fs cls obj))"

definition reset :: "osv \<Rightarrow> browse_record \<Rightarrow> (osv \<times> browse_record) \<times> (error + unit)" where
  "reset self obj =
     (let obj1 = obj\<lparr>fields_updated := []\<rparr>;
          ((cls, obj2), r) =
            reset_fields (py_values (columns (browse_class_of self))) (browse_class_of self) obj1
      in ((self\<lparr>browse_class_of := cls\<rparr>, obj2), r))"

text \<open>
  \<open>raw_data.update(default_get)\<close>. A dictionary has its entries written over those
  of \<open>raw_data\<close>. Any other argument is iterated as a sequence of pairs: a string
  yields its characters, a list its elements, and the remaining values cannot be
  iterated (\<open>TypeError\<close>). An element of the sequence is itself taken as a sequence,
  which must have two items, the key and the value (\<open>ValueError\<close> otherwise): the
  items of a list, the characters of a string, the keys of a dictionary. A list or a
  dictionary cannot be a key (\<open>TypeError\<close>). The elements are stored one after the
  other, so what was stored before an exception stays. The dictionaries of the model
  have strings as keys, and an entry under \<open>None\<close>, a boolean or an integer is not
  represented: no field name is equal to such a key.
\<close>

fun seq_pair :: "py_value \<Rightarrow> error + (py_value \<times> py_value)" where
  "seq_pair (VList xs) = (case xs of [k, v] \<Rightarrow> Inr (k, v) | _ \<Rightarrow> Inl ValueError)"
| "seq_pair (VStr s) = (case s of [a, b] \<Rightarrow> Inr (VStr [a], VStr [b]) | _ \<Rightarrow> Inl ValueError)"
| "seq_pair (VDict kvs) =
     (case py_keys kvs of [k1, k2] \<Rightarrow> Inr (VStr k1, VStr k2) | _ \<Rightarrow> Inl ValueError)"
| "seq_pair VNone = Inl TypeError"
| "seq_pair (VBool b) = Inl TypeError"
| "seq_pair (VInt i) = Inl TypeError"

fun dict_setitem ::
  "(string \<times> py_value) list \<Rightarrow> py_value \<Rightarrow> py_value \<Rightarrow> error + (string \<times> py_value) list" where
  "dict_setitem d (VStr k) v = Inr (AList.update k v d)"
| "dict_setitem d (VList xs) v = Inl TypeError"
| "dict_setitem d (VDict kvs) v = Inl TypeError"
| "dict_setitem d VNone v = Inr d"
| "dict_setitem d (VBool b) v = Inr d"
| "dict_setitem d (VInt i) v = Inr d"

fun update_seq ::
  "(string \<times> py_value) list \<Rightarrow> py_value list \<Rightarrow> (string \<times> py_value) list \<times> (error + unit)" where
  "update_seq d [] = (d, Inr ())"
| "update_seq d (x # xs) =
     (case seq_pair x of
        Inl e \<Rightarrow> (d, Inl e)
      | Inr (k, v) \<Rightarrow>
          (case dict_setitem d k v of
             Inl e \<Rightarrow> (d, Inl e)
           | Inr d' \<Rightarrow> update_seq d' xs))"

fun py_update ::
  "(string \<times> py_value) list \<Rightarrow> py_value \<Rightarrow> (string \<times> py_value) list \<times> (error + unit)" where
  "py_update d (VDict kvs) =
     (foldl (\<lambda>acc (k, v). AList.update k v acc) d (py_items kvs), Inr ())"
| "py_update d (VList xs) = update_seq d xs"
| "py_update d (VStr s) = update_seq d (map (\<lambda>c. VStr [c]) s)"
| "py_update d VNone = (d, Inl TypeError)"
| "py_update d (VBool b) = (d, Inl TypeError)"
| "py_update d (VInt i) = (d, Inl TypeError)"

definition no_record_msg :: string where
  "no_record_msg = ''There is no '' @ [CHR 0x27] @ ''{osv_name}'' @ [CHR 0x27] @ '' record with ID {obj_id}.''"

definition refresh ::
  "server \<Rightarrow> osv \<Rightarrow> browse_record \<Rightarrow> py_value \<Rightarrow> (osv \<times> browse_record) \<times> (error + unit)" where
  "refresh srv self obj context0 =
     (let context = (if truthy context0 then context0 else VDict []);
          obj1 = obj\<lparr>data_context := context\<rparr>
      in if truthy (rec_id obj1) then
           (let (self', r) =
                  (if compatible (oerp_of self)
                   then rpc_method srv self ''read'' [VList [rec_id obj1], VNone, context] []
                   else rpc_method srv self ''read'' [VList [rec_id obj1], VNone]
                          [(''context'', context)])
            in case r of
                 Inl e \<Rightarrow> ((self', obj1), Inl e)
               | Inr res \<Rightarrow>
                   (case py_getitem0 res of
                      Inl e \<Rightarrow> ((self', obj1), Inl e)
                    | Inr rd \<Rightarrow>
                        (let obj2 = obj1\<lparr>raw_data := rd\<rparr>
                         in if is_False (raw_data obj2) then
                              ((self', obj2),
                               Inl (RPCError no_record_msg
                                      [(''osv_name'', VStr (osv_name (browse_class_of self'))),
                                       (''obj_id'', rec_id obj2)]))
                            else reset self' obj2)))
         else
           (let keys = map VStr (py_keys (columns (browse_class_of self)));
                (self', r) =
                  (if compatible (oerp_of self)
                   then rpc_method srv self ''default_get'' [VList keys, context] []
                   else rpc_method srv self ''default_get'' [VList keys] [(''context'', context)])
            in case r of
                 Inl e \<Rightarrow> ((self', obj1), Inl e)
               | Inr default_get \<Rightarrow>
                   (let filled =
                          foldl (\<lambda>acc field_name. AList.update field_name (VBool False) acc) []
                            (py_keys (columns (browse_class_of self')));
                        (d, r') = py_update filled default_get;
                        obj2 = obj1\<lparr>raw_data := VDict d\<rparr>
                    in case r' of
                         Inl e \<Rightarrow> ((self', obj2), Inl e)
                       | Inr u \<Rightarrow> reset self' obj2)))"

section \<open>Writing and deleting a record\<close>

text \<open>
  The loop of \<open>_write_record\<close> over \<open>fields_updated\<close>, which builds the dictionary
  \<open>vals\<close> sent to the server. \<open>field_value and field_value[0]\<close> is the value itself
  when it is false and its first item otherwise.
\<close>

fun write_vals ::
  "browse_class \<Rightarrow> browse_record \<Rightarrow> string list \<Rightarrow> (string \<times> py_value) list \<Rightarrow> error + (string \<times> py_value) list" where
  "write_vals cls obj [] vals = Inr vals"
| "write_vals cls obj (field_name # rest) vals =
     (case py_in field_name (raw_data obj) of
        Inl e \<Rightarrow> Inl e
      | Inr present \<Rightarrow>
          (if present then
             (case map_of (columns cls) field_name of
                None \<Rightarrow> Inl KeyError
              | Some fld \<Rightarrow>
                  (case map_of (attrs obj) (attr_name field_name) of
                     None \<Rightarrow> Inl AttributeError
                   | Some field_value \<Rightarrow>
                       (if kind fld = RefSingle then
                          (case (if truthy field_value then py_getitem0 field_value
                                 else Inr field_value) of
                             Inl e \<Rightarrow> Inl e
                           | Inr v \<Rightarrow> write_vals cls obj rest (AList.update field_name v vals))
                        else write_vals cls obj rest (AList.update field_name field_value vals))))
           else write_vals cls obj rest vals))"

text \<open>\<open>self.write([obj.id], vals, context)\<close> in either calling convention.\<close>

definition write_call ::
  "server \<Rightarrow> osv \<Rightarrow> browse_record \<Rightarrow> (string \<times> py_value) list \<Rightarrow> py_value \<Rightarrow> osv \<times> (error + py_value)" where
  "write_call srv self obj vals context =
     (if compatible (oerp_of self)
      then rpc_method srv self ''write'' [VList [rec_id obj], VDict vals, context] []
      else rpc_method srv self ''write'' [VList [rec_id obj], VDict vals] [(''context'', context)])"

definition write_record ::
  "server \<Rightarrow> osv \<Rightarrow> browse_record \<Rightarrow> py_value \<Rightarrow> (osv \<times> browse_record) \<times> (error + py_value)" where
  "write_record srv self obj context =
     (case write_vals (browse_class_of self) obj (fields_updated obj) [] of
        Inl e \<Rightarrow> ((self, obj), Inl e)
      | Inr vals \<Rightarrow>
          (let (self', r) = write_call srv self obj vals context
           in case r of
                Inl exc \<Rightarrow> ((self', obj), Inl exc)
              | Inr res \<Rightarrow>
                  (let ((self'', obj'), r') = refresh srv self' obj context
                   in case r' of
                        Inl e \<Rightarrow> ((self'', obj'), Inl e)
                      | Inr u \<Rightarrow> ((self'', obj'), Inr res))))"

definition unlink_record :: "server \<Rightarrow> osv \<Rightarrow> browse_record \<Rightarrow> py_value \<Rightarrow> osv \<times> (error + py_value)" where
  "unlink_record srv self obj context =
     (if compatible (oerp_of self)
      then rpc_method srv self ''unlink'' [VList [rec_id obj], context] []
      else rpc_method srv self ''unlink'' [VList [rec_id obj]] [(''context'', context)])"

section \<open>Browsing\<close>

text \<open>
  \<open>browse\<close> returns a record or, for a list of ids, the generator made by
  \<open>_browse_generator\<close>. A generator holds the ids it has not yet reached and the
  context; nothing of its body runs before the first \<open>next\<close>. \<open>generator_next\<close> is one
  \<open>next\<close> on it: \<open>StopIteration\<close> at the end of the ids, and a generator whose body
  raised is finished.
\<close>

record browse_generator =
  pending :: "py_value list"
  gen_context :: py_value

datatype browse_result = Record browse_record | Generator browse_generator

definition browse :: "server \<Rightarrow> osv \<Rightarrow> py_value \<Rightarrow> py_value \<Rightarrow> osv \<times> (error + browse_result)" where
  "browse srv self ids context =
     (case ids of
        VList xs \<Rightarrow> (self, Inr (Generator \<lparr>pending = xs, gen_context = context\<rparr>))
      | _ \<Rightarrow>
          (let obj = new_record ids;
               ((self', obj'), r) = refresh srv self obj context
           in case r of
                Inl e \<Rightarrow> (self', Inl e)
              | Inr u \<Rightarrow> (self', Inr (Record obj'))))"

definition generator_next ::
  "server \<Rightarrow> osv \<Rightarrow> browse_generator \<Rightarrow> (osv \<times> browse_generator) \<times> (error + browse_result)" where
  "generator_next srv self g =
     (case pending g of
        [] \<Rightarrow> ((self, g), Inl StopIteration)
      | o_id # rest \<Rightarrow>
          (let (self', r) = browse srv self o_id (gen_context g)
           in case r of
                Inl e \<Rightarrow> ((self', g\<lparr>pending := []\<rparr>), Inl e)
              | Inr x \<Rightarrow> ((self', g\<lparr>pending := rest\<rparr>), Inr x)))"

text \<open>
  A caller's loop \<open>for record in osv.browse(ids)\<close>, which collects the elements: it
  pulls one element after the other, the ids being the ones still pending; a
  \<open>StopIteration\<close> ends the loop and any other exception leaves it.
\<close>

fun consume ::
  "server \<Rightarrow> osv \<Rightarrow> py_value \<Rightarrow> py_value list \<Rightarrow> osv \<times> (error + browse_result list)" where
  "consume srv self context [] = (self, Inr [])"
| "consume srv self context (o_id # rest) =
     (case generator_next srv self \<lparr>pending = o_id # rest, gen_context = context\<rparr> of
        ((self', g), Inl e) \<Rightarrow> (self', if e = StopIteration then Inr [] else Inl e)
      | ((self', g), Inr x) \<Rightarrow>
          (case consume srv self' context rest of
             (self'', Inl e) \<Rightarrow> (self'', Inl e)
           | (self'', Inr xs) \<Rightarrow> (self'', Inr (x # xs))))"

text \<open>\<open>OSV.__getitem__\<close>\<close>

definition osv_getitem :: "server \<Rightarrow> osv \<Rightarrow> py_value \<Rightarrow> osv \<times> (error + browse_result)" where
  "osv_getitem srv self obj_id = browse srv self obj_id VNone"

section \<open>Requests and sample data\<close>

text \<open>
  The request that \<open>self.method(args..., context)\<close> (compatibility mode) or
  \<open>self.method(args..., context=context)\<close> (standard mode) sends, and a proxy after
  one more logged call.
\<close>

definition context_request :: "osv \<Rightarrow> string \<Rightarrow> py_value list \<Rightarrow> py_value \<Rightarrow> rpc_call" where
  "context_request self method args context =
     (if compatible (oerp_of self)
      then Execute (osv_name (browse_class_of self)) method (args @ [context])
      else ExecuteKw (osv_name (browse_class_of self)) method args [(''context'', context)])"

text \<open>\<open>context or {}\<close>\<close>

definition context_or_empty :: "py_value \<Rightarrow> py_value" where
  "context_or_empty context = (if truthy context then context else VDict [])"

text \<open>
  The value the loop of \<open>_write_record\<close> stores in \<open>vals\<close> for a field with
  descriptor \<open>fld\<close> and current value \<open>v\<close>.
\<close>

definition sent_value :: "field \<Rightarrow> py_value \<Rightarrow> error + py_value" where
  "sent_value fld v =
     (if kind fld = RefSingle then (if truthy v then py_getitem0 v else Inr v) else Inr v)"

definition logged :: "osv \<Rightarrow> rpc_call \<Rightarrow> osv" where
  "logged self c = self\<lparr>oerp_of := (oerp_of self)\<lparr>calls := calls (oerp_of self) @ [c]\<rparr>\<rparr>"

definition remote_calls :: "osv \<Rightarrow> nat" where
  "remote_calls self = length (calls (oerp_of self))"

text \<open>Every reference held by an index of the pool points into the store.\<close>

definition wf_pool :: "pool \<Rightarrow> bool" where
  "wf_pool p =
     (list_all (\<lambda>(k, facto). facto < length (heap p)) (factories_by_osv_name p)
      \<and> list_all (\<lambda>(c, facto). facto < length (heap p)) (factories_by_osv_class p))"

text \<open>A server that answers by method name, and the entity of the spec's scenario.\<close>

fun method_of :: "rpc_call \<Rightarrow> string" where
  "method_of (Execute entity method args) = method"
| "method_of (ExecuteKw entity method args kwargs) = method"

definition answers :: "(string \<times> (error + py_value)) list \<Rightarrow> server" where
  "answers table log c =
     (case map_of table (method_of c) of
        None \<Rightarrow> Inl (RemoteError ''unknown method'')
      | Some a \<Rightarrow> a)"

definition demo_kinds :: kind_table where
  "demo_kinds t =
     (if t = ''text'' then Some Text
      else if t = ''char'' then Some Scalar
      else if t = ''many2one'' then Some RefSingle
      else None)"

definition partner_fields :: py_value where
  "partner_fields =
     VDict [(''id'', VDict [(''type'', VStr ''integer'')]),
            (''name'', VDict [(''type'', VStr ''text''), (''string'', VStr ''Name'')]),
            (''partner_id'', VDict [(''type'', VStr ''many2one''), (''string'', VStr ''Partner'')])]"

definition unnamed_fields :: py_value where
  "unnamed_fields =
     VDict [(''id'', VDict [(''type'', VStr ''integer'')]),
            (''partner_id'', VDict [(''type'', VStr ''many2one''), (''string'', VStr ''Partner'')])]"

definition partner_row :: py_value where
  "partner_row = VDict [(''name'', VStr ''Acme''), (''partner_id'', VList [VInt 7, VStr ''Acme Corp''])]"

definition demo_table :: "(string \<times> (error + py_value)) list" where
  "demo_table =
     [(''fields_get'', Inr partner_fields),
      (''read'', Inr (VList [partner_row])),
      (''default_get'', Inr (VDict [(''name'', VStr ''New'')])),
      (''write'', Inr (VBool True))]"

definition demo_server :: server where
  "demo_server = answers demo_table"

definition demo_conn :: oerp where
  "demo_conn = \<lparr>compatible = False, auto_context = False, oerp_context = VDict [], calls = []\<rparr>"

definition compat_conn :: oerp where
  "compat_conn = \<lparr>compatible = True, auto_context = False, oerp_context = VDict [], calls = []\<rparr>"

definition name_column :: field where
  "name_column = \<lparr>name = ''name'', kind = Text, label = VStr ''Name'', read_only = False\<rparr>"

definition partner_column :: field where
  "partner_column = \<lparr>name = ''partner_id'', kind = RefSingle, label = VStr ''Partner'', read_only = False\<rparr>"

definition demo_class :: browse_class where
  "demo_class =
     \<lparr>cls_name = ''res_partner'', osv_name = ''res.partner'',
      columns = [(''name'', name_column), (''partner_id'', partner_column)], cls_attrs = []\<rparr>"

definition demo_osv :: osv where
  "demo_osv = \<lparr>oerp_of = demo_conn, name_of = ''res.partner'', browse_class_of = demo_class\<rparr>"

definition compat_osv :: osv where
  "compat_osv = \<lparr>oerp_of = compat_conn, name_of = ''res.partner'', browse_class_of = demo_class\<rparr>"

text \<open>
  The class generated for an entity whose server-side schema has no field \<open>name\<close>
  (\<open>unnamed_fields\<close>), and a server for it: its \<open>read\<close> returns the fields it knows.
\<close>

definition synthetic_name :: field where
  "synthetic_name = \<lparr>name = ''name'', kind = Text, label = VStr ''Name'', read_only = True\<rparr>"

definition unnamed_class :: browse_class where
  "unnamed_class =
     \<lparr>cls_name = ''res_partner'', osv_name = ''res.partner'',
      columns = [(''partner_id'', partner_column), (''name'', synthetic_name)], cls_attrs = []\<rparr>"

definition unnamed_osv :: osv where
  "unnamed_osv = \<lparr>oerp_of = demo_conn, name_of = ''res.partner'', browse_class_of = unnamed_class\<rparr>"

definition unnamed_server :: server where
  "unnamed_server =
     answers [(''fields_get'', Inr unnamed_fields),
              (''read'', Inr (VList [VDict [(''partner_id'', VList [VInt 7, VStr ''Acme Corp''])]]))]"

text \<open>
  No field of the class is named like the storage attribute \<open>_<field>\<close> of a field
  of the class, and no descriptor is installed under such an attribute: every assignment
  of \<open>_reset\<close> is then a store in the instance.
\<close>

definition plain_storage :: "browse_class \<Rightarrow> bool" where
  "plain_storage cls =
     list_all (\<lambda>f. map_of (cls_attrs cls) (attr_name (name f)) = None
                  \<and> \<not> List.member (map name (py_values (columns cls))) (attr_name (name f)))
       (py_values (columns cls))"

text \<open>
  An entity with the two fields \<open>_x\<close> and \<open>x\<close>: the field \<open>_x\<close> is named like
  the storage attribute of \<open>x\<close>.
\<close>

definition shadow_class :: browse_class where
  "shadow_class =
     \<lparr>cls_name = ''res_shadow'', osv_name = ''res.shadow'',
      columns = [(''_x'', \<lparr>name = ''_x'', kind = Scalar, label = VStr ''Shadow'', read_only = False\<rparr>),
                 (''x'', \<lparr>name = ''x'', kind = Scalar, label = VStr ''X'', read_only = False\<rparr>),
                 (''name'', synthetic_name)],
      cls_attrs = []\<rparr>"

definition shadow_osv :: osv where
  "shadow_osv = \<lparr>oerp_of = demo_conn, name_of = ''res.shadow'', browse_class_of = shadow_class\<rparr>"

definition shadow_server :: server where
  "shadow_server =
     answers [(''read'', Inr (VList [VDict [(''_x'', VInt 2), (''x'', VInt 1), (''name'', VStr ''S'')]])),
              (''write'', Inr (VBool True))]"

text \<open>A loaded record of the entity in which the field \<open>partner_id\<close> has been edited.\<close>

definition edited_record :: browse_record where
  "edited_record =
     \<lparr>rec_id = VInt 1, data_context = VDict [], raw_data = partner_row,
      fields_updated = [''partner_id''],
      attrs = [(''_name'', VStr ''Acme''), (''_partner_id'', VList [VInt 9, VStr ''Other''])]\<rparr>"

definition no_failure :: introspection where
  "no_failure entity = None"

section \<open>Properties\<close>

subsection \<open>Refreshing and browsing\<close>

lemma map_of_update: "map_of (AList.update k v al) = (map_of al)(k \<mapsto> v)"
  by (rule update_conv')

lemma read_call:
  "(if compatible (oerp_of self)
    then rpc_method srv self m [a, b, ctx] []
    else rpc_method srv self m [a, b] [(''context'', ctx)])
   = (logged self (context_request self m [a, b] ctx),
      srv (calls (oerp_of self)) (context_request self m [a, b] ctx))"
  by (simp add: rpc_method_def execute_def execute_kw_def context_request_def logged_def Let_def)

lemma default_get_call:
  "(if compatible (oerp_of self)
    then rpc_method srv self m [a, ctx] []
    else rpc_method srv self m [a] [(''context'', ctx)])
   = (logged self (context_request self m [a] ctx),
      srv (calls (oerp_of self)) (context_request self m [a] ctx))"
  by (simp add: rpc_method_def execute_def execute_kw_def context_request_def logged_def Let_def)

lemma py_setattr_plain:
  "map_of (cls_attrs cls) attr = None \<Longrightarrow>
     py_setattr cls obj attr v = (obj\<lparr>attrs := AList.update attr v (attrs obj)\<rparr>, Inr ())"
  by (subst py_setattr.simps) simp

lemma py_setattr_frame:
  "py_setattr cls obj attr v = (obj', r) \<Longrightarrow>
     raw_data obj' = raw_data obj \<and> rec_id obj' = rec_id obj \<and> data_context obj' = data_context obj"
proof (induction cls obj attr v arbitrary: obj' r rule: py_setattr.induct)
  case (1 cls obj attr v)
  show ?case
  proof (cases "map_of (cls_attrs cls) attr")
    case None
    with "1.prems" show ?thesis by (auto simp: py_setattr_plain)
  next
    case (Some fld)
    show ?thesis
    proof (cases "read_only fld")
      case True
      with Some "1.prems" show ?thesis by (subst (asm) py_setattr.simps) simp
    next
      case False
      obtain obj1 r1 where inner: "py_setattr cls obj (attr_name attr) v = (obj1, r1)"
        by (cases "py_setattr cls obj (attr_name attr) v")
      from "1.IH"[OF Some False inner] have
        keep: "raw_data obj1 = raw_data obj \<and> rec_id obj1 = rec_id obj
               \<and> data_context obj1 = data_context obj" .
      from "1.prems" Some False inner keep show ?thesis
        by (subst (asm) py_setattr.simps) (auto split: sum.splits)
    qed
  qed
qed

lemma reset_fields_frame:
  "reset_fields fs cls obj = ((cls', obj'), r) \<Longrightarrow>
     raw_data obj' = raw_data obj
     \<and> rec_id obj' = rec_id obj \<and> data_context obj' = data_context obj
     \<and> columns cls' = columns cls \<and> osv_name cls' = osv_name cls \<and> cls_name cls' = cls_name cls"
proof (induction fs arbitrary: cls obj)
  case Nil
  then show ?case by simp
next
  case (Cons f fs)
  show ?case
  proof (cases "py_in (name f) (raw_data obj)")
    case (Inl e)
    with Cons.prems show ?thesis by simp
  next
    case (Inr present)
    show ?thesis
    proof (cases present)
      case False
      with Inr Cons.prems have "reset_fields fs cls obj = ((cls', obj'), r)" by simp
      from Cons.IH[OF this] show ?thesis .
    next
      case True
      show ?thesis
      proof (cases "py_getitem (raw_data obj) (name f)")
        case (Inl e)
        with True Inr Cons.prems show ?thesis by simp
      next
        case inr: (Inr v)
        obtain obj1 r1 where st: "py_setattr cls obj (attr_name (name f)) v = (obj1, r1)"
          by (cases "py_setattr cls obj (attr_name (name f)) v")
        note keep = py_setattr_frame[OF st]
        show ?thesis
        proof (cases r1)
          case (Inl e)
          with True Inr inr st Cons.prems keep show ?thesis by simp
        next
          case ok: (Inr u)
          with True Inr inr st Cons.prems have
            "reset_fields fs (cls\<lparr>cls_attrs := AList.update (name f) f (cls_attrs cls)\<rparr>) obj1
               = ((cls', obj'), r)"
            by simp
          from Cons.IH[OF this] keep show ?thesis by simp
        qed
      qed
    qed
  qed
qed

lemma reset_fields_plain:
  "\<forall>f \<in> set fs. map_of (cls_attrs cls) (attr_name (name f)) = None \<Longrightarrow>
   \<forall>f \<in> set fs. \<forall>g \<in> set fs. name g \<noteq> attr_name (name f) \<Longrightarrow>
   reset_fields fs cls obj = ((cls', obj'), r) \<Longrightarrow>
   fields_updated obj' = fields_updated obj"
proof (induction fs arbitrary: cls obj)
  case Nil
  then show ?case by simp
next
  case (Cons f fs)
  have free: "\<forall>g \<in> set fs. map_of (cls_attrs cls) (attr_name (name g)) = None"
    and apart: "\<forall>g \<in> set fs. \<forall>h \<in> set fs. name h \<noteq> attr_name (name g)"
    and head: "map_of (cls_attrs cls) (attr_name (name f)) = None"
    and other: "\<forall>g \<in> set fs. name f \<noteq> attr_name (name g)"
    using Cons.prems(1,2) by auto
  show ?case
  proof (cases "py_in (name f) (raw_data obj)")
    case (Inl e)
    with Cons.prems(3) show ?thesis by simp
  next
    case (Inr present)
    show ?thesis
    proof (cases present)
      case False
      with Inr Cons.prems(3) have "reset_fields fs cls obj = ((cls', obj'), r)" by simp
      from Cons.IH[OF free apart this] show ?thesis .
    next
      case True
      show ?thesis
      proof (cases "py_getitem (raw_data obj) (name f)")
        case (Inl e)
        with True Inr Cons.prems(3) show ?thesis by simp
      next
        case inr: (Inr v)
        let ?cls = "cls\<lparr>cls_attrs := AList.update (name f) f (cls_attrs cls)\<rparr>"
        let ?obj = "obj\<lparr>attrs := AList.update (attr_name (name f)) v (attrs obj)\<rparr>"
        from True Inr inr Cons.prems(3) have step: "reset_fields fs ?cls ?obj = ((cls', obj'), r)"
          by (simp add: py_setattr_plain[OF head])
        have free': "\<forall>g \<in> set fs. map_of (cls_attrs ?cls) (attr_name (name g)) = None"
          using free other by (auto simp: map_of_update)
        from Cons.IH[OF free' apart step] show ?thesis by simp
      qed
    qed
  qed
qed

lemma reset_frame:
  assumes "reset self obj = ((self', obj'), r)"
  shows "raw_data obj' = raw_data obj"
    and "rec_id obj' = rec_id obj" and "data_context obj' = data_context obj"
    and "oerp_of self' = oerp_of self" and "name_of self' = name_of self"
    and "columns (browse_class_of self') = columns (browse_class_of self)"
    and "osv_name (browse_class_of self') = osv_name (browse_class_of self)"
proof -
  obtain cls obj2 r2 where rf:
    "reset_fields (py_values (columns (browse_class_of self))) (browse_class_of self)
       (obj\<lparr>fields_updated := []\<rparr>) = ((cls, obj2), r2)"
    by (metis prod.exhaust)
  with assms have eq: "self' = self\<lparr>browse_class_of := cls\<rparr>" "obj' = obj2" "r = r2"
    by (simp_all add: reset_def Let_def)
  from reset_fields_frame[OF rf] eq
  show "raw_data obj' = raw_data obj"
    and "rec_id obj' = rec_id obj" and "data_context obj' = data_context obj"
    and "oerp_of self' = oerp_of self" and "name_of self' = name_of self"
    and "columns (browse_class_of self') = columns (browse_class_of self)"
    and "osv_name (browse_class_of self') = osv_name (browse_class_of self)"
    by simp_all
qed

lemma reset_plain:
  assumes "plain_storage (browse_class_of self)"
  shows "fields_updated (snd (fst (reset self obj))) = []"
proof -
  let ?fs = "py_values (columns (browse_class_of self))"
  obtain cls obj2 r2 where rf:
    "reset_fields ?fs (browse_class_of self) (obj\<lparr>fields_updated := []\<rparr>) = ((cls, obj2), r2)"
    by (metis prod.exhaust)
  have free: "\<forall>f \<in> set ?fs. map_of (cls_attrs (browse_class_of self)) (attr_name (name f)) = None"
    using assms by (simp add: plain_storage_def list_all_iff)
  have "\<forall>f \<in> set ?fs. attr_name (name f) \<notin> name ` set ?fs"
    using assms by (simp add: plain_storage_def list_all_iff)
  then have apart: "\<forall>f \<in> set ?fs. \<forall>g \<in> set ?fs. name g \<noteq> attr_name (name f)"
    by (metis imageI)
  from reset_fields_plain[OF free apart rf] rf show ?thesis
    by (simp add: reset_def Let_def)
qed

lemma refresh_with_id:
  assumes "truthy (rec_id obj)"
  shows "refresh srv self obj ctx =
     (let c = context_request self ''read'' [VList [rec_id obj], VNone] (context_or_empty ctx);
          self' = logged self c;
          obj1 = obj\<lparr>data_context := context_or_empty ctx\<rparr>
      in case srv (calls (oerp_of self)) c of
           Inl e \<Rightarrow> ((self', obj1), Inl e)
         | Inr res \<Rightarrow>
             (case py_getitem0 res of
                Inl e \<Rightarrow> ((self', obj1), Inl e)
              | Inr rd \<Rightarrow>
                  if is_False rd then
                    ((self', obj1\<lparr>raw_data := rd\<rparr>),
                     Inl (RPCError no_record_msg
                            [(''osv_name'', VStr (osv_name (browse_class_of self))),
                             (''obj_id'', rec_id obj)]))
                  else reset self' (obj1\<lparr>raw_data := rd\<rparr>)))"
  using assms
  by (simp add: refresh_def read_call Let_def context_or_empty_def logged_def split: sum.splits)

lemma fill_keys:
  "map_of (foldl (\<lambda>acc field_name. AList.update field_name v acc) d ks) k \<noteq> None
   \<longleftrightarrow> k \<in> set ks \<or> map_of d k \<noteq> None"
  by (induction ks arbitrary: d) (auto simp: map_of_update)

lemma update_seq_keeps_keys:
  "map_of d k \<noteq> None \<Longrightarrow> map_of (fst (update_seq d xs)) k \<noteq> None"
proof (induction xs arbitrary: d)
  case Nil
  then show ?case by simp
next
  case (Cons x xs)
  show ?case
  proof (cases "seq_pair x")
    case (Inl e)
    with Cons.prems show ?thesis by simp
  next
    case (Inr kv)
    obtain key v where kv: "kv = (key, v)" by (cases kv)
    show ?thesis
    proof (cases "dict_setitem d key v")
      case (Inl e)
      with Inr kv Cons.prems show ?thesis by simp
    next
      case set: (Inr d')
      with Cons.prems have "map_of d' k \<noteq> None"
        by (cases key) (auto simp: map_of_update)
      from Cons.IH[OF this] Inr kv set show ?thesis by simp
    qed
  qed
qed

lemma py_update_keeps_keys:
  "map_of d k \<noteq> None \<Longrightarrow> map_of (fst (py_update d x)) k \<noteq> None"
proof (cases x)
  case (VDict kvs)
  have "map_of d k \<noteq> None \<Longrightarrow>
        map_of (foldl (\<lambda>acc (k, v). AList.update k v acc) d xs) k \<noteq> None" for xs
    by (induction xs arbitrary: d) (auto simp: map_of_update)
  then show "map_of d k \<noteq> None \<Longrightarrow> map_of (fst (py_update d x)) k \<noteq> None"
    using VDict by auto
qed (simp_all add: update_seq_keeps_keys)

lemma refresh_draft:
  assumes "\<not> truthy (rec_id obj)"
  shows "refresh srv self obj ctx =
     (let keys = py_keys (columns (browse_class_of self));
          c = context_request self ''default_get'' [VList (map VStr keys)] (context_or_empty ctx);
          self' = logged self c;
          obj1 = obj\<lparr>data_context := context_or_empty ctx\<rparr>;
          filled = foldl (\<lambda>acc field_name. AList.update field_name (VBool False) acc) [] keys
      in case srv (calls (oerp_of self)) c of
           Inl e \<Rightarrow> ((self', obj1), Inl e)
         | Inr default_get \<Rightarrow>
             (case snd (py_update filled default_get) of
                Inl e \<Rightarrow>
                  ((self', obj1\<lparr>raw_data := VDict (fst (py_update filled default_get))\<rparr>), Inl e)
              | Inr u \<Rightarrow>
                  reset self' (obj1\<lparr>raw_data := VDict (fst (py_update filled default_get))\<rparr>)))"
  using assms
  by (simp add: refresh_def default_get_call Let_def context_or_empty_def logged_def
        split: sum.splits prod.splits)

lemma reset_oerp: "oerp_of (fst (fst (reset self obj))) = oerp_of self"
  by (rule reset_frame(4)[of self obj _ "snd (fst (reset self obj))" "snd (reset self obj)"]) simp

lemma reset_raw_data: "raw_data (snd (fst (reset self obj))) = raw_data obj"
  by (rule reset_frame(1)[of self obj "fst (fst (reset self obj))" _ "snd (reset self obj)"]) simp

lemma reset_class:
  "columns (browse_class_of (fst (fst (reset self obj)))) = columns (browse_class_of self)"
  by (rule reset_frame(6)[of self obj _ "snd (fst (reset self obj))" "snd (reset self obj)"]) simp

lemma refresh_calls:
  "remote_calls (fst (fst (refresh srv self obj ctx))) = Suc (remote_calls self)"
proof (cases "truthy (rec_id obj)")
  case True
  show ?thesis
    unfolding refresh_with_id[OF True] Let_def
    by (simp add: remote_calls_def logged_def reset_oerp split: sum.splits)
next
  case False
  show ?thesis
    unfolding refresh_draft[OF False] Let_def
    by (simp add: remote_calls_def logged_def reset_oerp split: sum.splits)
qed

lemma browse_state:
  "fst (browse srv self ids ctx) =
     (case ids of VList xs \<Rightarrow> self | _ \<Rightarrow> fst (fst (refresh srv self (new_record ids) ctx)))"
  by (cases ids) (simp_all add: browse_def Let_def split: prod.splits sum.splits)

lemma browse_calls:
  "remote_calls (fst (browse srv self ids ctx)) =
     (case ids of VList xs \<Rightarrow> remote_calls self | _ \<Rightarrow> Suc (remote_calls self))"
  by (cases ids) (simp_all add: browse_state refresh_calls)

lemma generator_next_calls:
  "remote_calls (fst (fst (generator_next srv self g))) \<le> Suc (remote_calls self)"
proof (cases "pending g")
  case Nil
  then show ?thesis by (simp add: generator_next_def)
next
  case (Cons o_id rest)
  have "remote_calls (fst (browse srv self o_id (gen_context g))) \<le> Suc (remote_calls self)"
    by (simp add: browse_calls split: py_value.splits)
  with Cons show ?thesis
    by (auto simp: generator_next_def Let_def split: prod.splits sum.splits)
qed

lemma consume_calls:
  "remote_calls (fst (consume srv self ctx ids)) \<le> remote_calls self + length ids"
proof (induction ids arbitrary: self)
  case Nil
  show ?case by simp
next
  case (Cons o_id rest)
  obtain self' g r where gn:
    "generator_next srv self \<lparr>pending = o_id # rest, gen_context = ctx\<rparr> = ((self', g), r)"
    by (metis prod.exhaust)
  have le: "remote_calls self' \<le> Suc (remote_calls self)"
    using generator_next_calls[of srv self "\<lparr>pending = o_id # rest, gen_context = ctx\<rparr>"] gn
    by simp
  show ?case
  proof (cases r)
    case (Inl e)
    with gn le show ?thesis by simp
  next
    case (Inr x)
    have "remote_calls (fst (consume srv self' ctx rest)) \<le> remote_calls self' + length rest"
      by (rule Cons.IH)
    with gn le Inr show ?thesis
      by (auto split: prod.splits sum.splits)
  qed
qed

text \<open>
  Claim C7. Browsing a list of ids returns a generator and leaves the proxy, and so the
  log of remote calls, untouched. One \<open>next\<close> on it is \<open>browse\<close> on the first pending
  id: it adds at most one remote call, and the generator raises \<open>StopIteration\<close>
  without a call when no id is pending. Consuming the whole sequence makes at most one
  call per id, and none for the empty list.
\<close>

theorem browse_list_lazy:
  "browse srv self (VList ids) ctx = (self, Inr (Generator \<lparr>pending = ids, gen_context = ctx\<rparr>))
   \<and> generator_next srv self \<lparr>pending = [], gen_context = ctx\<rparr>
       = ((self, \<lparr>pending = [], gen_context = ctx\<rparr>), Inl StopIteration)
   \<and> generator_next srv self \<lparr>pending = o_id # rest, gen_context = ctx\<rparr>
       = (case browse srv self o_id ctx of
            (self', Inl e) \<Rightarrow> ((self', \<lparr>pending = [], gen_context = ctx\<rparr>), Inl e)
          | (self', Inr x) \<Rightarrow> ((self', \<lparr>pending = rest, gen_context = ctx\<rparr>), Inr x))
   \<and> remote_calls (fst (browse srv self o_id ctx))
       = (case o_id of VList xs \<Rightarrow> remote_calls self | _ \<Rightarrow> Suc (remote_calls self))
   \<and> remote_calls (fst (fst (generator_next srv self g))) \<le> remote_calls self + 1
   \<and> remote_calls (fst (consume srv self ctx ids)) \<le> remote_calls self + length ids
   \<and> consume srv self ctx [] = (self, Inr [])"
  using generator_next_calls[of srv self g] consume_calls[of srv self ctx ids]
    browse_calls[of srv self o_id ctx]
  by (simp add: browse_def generator_next_def Let_def split: prod.splits sum.splits)

subsection \<open>Refresh\<close>

text \<open>
  Claim C2, as stated, fails: the test of \<open>_refresh\<close> is \<open>raw_data is False\<close>. A
  read that returns an empty dictionary for the record, which is false in Python, raises
  nothing; the refresh completes with an empty \<open>raw_data\<close>.
\<close>

theorem refresh_empty_row_no_error:
  "\<not> truthy (VDict [])
   \<and> refresh (answers [(''read'', Inr (VList [VDict []]))]) demo_osv (new_record (VInt 42)) VNone
     = ((logged demo_osv
           (ExecuteKw ''res.partner'' ''read'' [VList [VInt 42], VNone] [(''context'', VDict [])]),
         \<lparr>rec_id = VInt 42, data_context = VDict [], raw_data = VDict [],
          fields_updated = [], attrs = []\<rparr>),
        Inr ())"
  by (simp add: Let_def refresh_def rpc_method_def execute_kw_def answers_def demo_osv_def demo_conn_def
        demo_class_def new_record_def reset_def py_setattr.simps py_values_def py_items_def logged_def
        name_column_def partner_column_def)

text \<open>
  Claim C2, amended. For a record with an id, when the read answers with a result
  whose first item is \<open>False\<close>, \<open>_refresh\<close> raises the \<open>RPCError\<close>
  "There is no '{osv_name}' record with ID {obj_id}." formatted with the entity name and
  the id of the record. The record then holds \<open>False\<close> as \<open>raw_data\<close> and the new
  context; its field values and \<open>fields_updated\<close> are not touched.
\<close>

theorem refresh_missing_record:
  assumes "truthy (rec_id obj)"
    and "srv (calls (oerp_of self))
           (context_request self ''read'' [VList [rec_id obj], VNone] (context_or_empty ctx)) = Inr res"
    and "py_getitem0 res = Inr (VBool False)"
  shows "refresh srv self obj ctx =
           ((logged self (context_request self ''read'' [VList [rec_id obj], VNone] (context_or_empty ctx)),
             obj\<lparr>data_context := context_or_empty ctx, raw_data := VBool False\<rparr>),
            Inl (RPCError no_record_msg
                   [(''osv_name'', VStr (osv_name (browse_class_of self))),
                    (''obj_id'', rec_id obj)]))"
  using assms by (simp add: refresh_with_id Let_def)

theorem refresh_missing_record_witness:
  "truthy (rec_id (new_record (VInt 42)))
   \<and> py_getitem0 (VList [VBool False]) = Inr (VBool False)
   \<and> refresh (answers [(''read'', Inr (VList [VBool False]))]) demo_osv (new_record (VInt 42)) VNone
     = ((logged demo_osv
           (ExecuteKw ''res.partner'' ''read'' [VList [VInt 42], VNone] [(''context'', VDict [])]),
         \<lparr>rec_id = VInt 42, data_context = VDict [], raw_data = VBool False,
          fields_updated = [], attrs = []\<rparr>),
        Inl (RPCError no_record_msg [(''osv_name'', VStr ''res.partner''), (''obj_id'', VInt 42)]))"
  using refresh_missing_record[where obj = "new_record (VInt 42)" and self = demo_osv
          and srv = "answers [(''read'', Inr (VList [VBool False]))]" and ctx = VNone
          and res = "VList [VBool False]"]
  by (simp add: new_record_def context_request_def context_or_empty_def answers_def
        demo_osv_def demo_conn_def demo_class_def)

text \<open>
  Claim C3, as stated, fails in both parts. On the path of a record with an id,
  \<open>raw_data\<close> is what the server's read returned: for the entity without a
  server-side \<open>name\<close>, the schema has the generated column \<open>name\<close>, the read does
  not return it, and after the refresh \<open>raw_data\<close> has no entry for it. And for the
  entity with the fields \<open>_x\<close> and \<open>x\<close>, the value of \<open>x\<close> is assigned to the
  attribute \<open>_x\<close>, where the descriptor of the field \<open>_x\<close> sits: the refresh
  completes with \<open>_x\<close> in \<open>fields_updated\<close>.
\<close>

theorem refresh_completes_counterexample:
  "snd (refresh unnamed_server unnamed_osv (new_record (VInt 1)) VNone) = Inr ()
   \<and> raw_data (snd (fst (refresh unnamed_server unnamed_osv (new_record (VInt 1)) VNone)))
       = VDict [(''partner_id'', VList [VInt 7, VStr ''Acme Corp''])]
   \<and> ''name'' \<in> set (py_keys (columns (browse_class_of unnamed_osv)))
   \<and> py_in ''name'' (raw_data (snd (fst (refresh unnamed_server unnamed_osv (new_record (VInt 1)) VNone))))
       = Inr False
   \<and> snd (refresh shadow_server shadow_osv (new_record (VInt 1)) VNone) = Inr ()
   \<and> fields_updated (snd (fst (refresh shadow_server shadow_osv (new_record (VInt 1)) VNone)))
       = [''_x'']"
  by (simp add: Let_def refresh_def rpc_method_def execute_kw_def answers_def unnamed_osv_def
        demo_conn_def unnamed_class_def unnamed_server_def shadow_osv_def shadow_class_def
        shadow_server_def new_record_def reset_def py_setattr.simps py_values_def py_items_def
        py_keys_def synthetic_name_def partner_column_def attr_name_def)

lemma refresh_ok_clean:
  assumes "snd (refresh srv self obj ctx) = Inr u"
    and "plain_storage (browse_class_of self)"
  shows "fields_updated (snd (fst (refresh srv self obj ctx))) = []"
proof -
  have clean: "fields_updated (snd (fst (reset (logged self c) o1))) = []" for c o1
    using assms(2) reset_plain[of "logged self c" o1] by (simp add: logged_def)
  show ?thesis
  proof (cases "truthy (rec_id obj)")
    case True
    from assms(1) show ?thesis
      unfolding refresh_with_id[OF True] Let_def
      by (auto simp: clean split: sum.splits if_splits)
  next
    case False
    from assms(1) show ?thesis
      unfolding refresh_draft[OF False] Let_def
      by (auto simp: clean split: sum.splits if_splits)
  qed
qed

text \<open>
  The condition on the names is kept by a refresh: \<open>_reset\<close> installs descriptors
  under the names of the fields only.
\<close>

lemma reset_fields_attrs:
  "reset_fields fs cls obj = ((cls', obj'), r) \<Longrightarrow>
     fst ` set (cls_attrs cls') \<subseteq> fst ` set (cls_attrs cls) \<union> name ` set fs"
proof (induction fs arbitrary: cls obj)
  case Nil
  then show ?case by simp
next
  case (Cons f fs)
  show ?case
  proof (cases "py_in (name f) (raw_data obj)")
    case (Inl e)
    with Cons.prems show ?thesis by auto
  next
    case (Inr present)
    show ?thesis
    proof (cases present)
      case False
      with Inr Cons.prems have "reset_fields fs cls obj = ((cls', obj'), r)" by simp
      from Cons.IH[OF this] show ?thesis by auto
    next
      case True
      show ?thesis
      proof (cases "py_getitem (raw_data obj) (name f)")
        case (Inl e)
        with True Inr Cons.prems show ?thesis by auto
      next
        case inr: (Inr v)
        obtain obj1 r1 where st: "py_setattr cls obj (attr_name (name f)) v = (obj1, r1)"
          by (cases "py_setattr cls obj (attr_name (name f)) v")
        show ?thesis
        proof (cases r1)
          case (Inl e)
          with True Inr inr st Cons.prems show ?thesis by auto
        next
          case ok: (Inr u)
          with True Inr inr st Cons.prems have
            "reset_fields fs (cls\<lparr>cls_attrs := AList.update (name f) f (cls_attrs cls)\<rparr>) obj1
               = ((cls', obj'), r)"
            by simp
          from Cons.IH[OF this] have
            "fst ` set (cls_attrs cls')
               \<subseteq> fst ` set (AList.update (name f) f (cls_attrs cls)) \<union> name ` set fs"
            by simp
          moreover have "fst ` set (AList.update (name f) f (cls_attrs cls))
               = insert (name f) (fst ` set (cls_attrs cls))"
            using dom_update[of "name f" f "cls_attrs cls"]
            by (simp add: dom_map_of_conv_image_fst)
          ultimately show ?thesis by auto
        qed
      qed
    qed
  qed
qed

lemma reset_plain_storage:
  assumes "plain_storage (browse_class_of self)"
  shows "plain_storage (browse_class_of (fst (fst (reset self obj))))"
proof -
  let ?fs = "py_values (columns (browse_class_of self))"
  obtain cls obj2 r2 where rf:
    "reset_fields ?fs (browse_class_of self) (obj\<lparr>fields_updated := []\<rparr>) = ((cls, obj2), r2)"
    by (metis prod.exhaust)
  then have res: "browse_class_of (fst (fst (reset self obj))) = cls"
    by (simp add: reset_def Let_def)
  from reset_fields_frame[OF rf] have cols: "columns cls = columns (browse_class_of self)" by simp
  note keys = reset_fields_attrs[OF rf]
  have "map_of (cls_attrs cls) (attr_name (name f)) = None" if f: "f \<in> set ?fs" for f
  proof -
    from assms f have "map_of (cls_attrs (browse_class_of self)) (attr_name (name f)) = None"
      and "attr_name (name f) \<notin> name ` set ?fs"
      by (simp_all add: plain_storage_def list_all_iff)
    then have "attr_name (name f) \<notin> fst ` set (cls_attrs (browse_class_of self)) \<union> name ` set ?fs"
      by (simp add: map_of_eq_None_iff)
    with keys have "attr_name (name f) \<notin> fst ` set (cls_attrs cls)" by blast
    then show ?thesis by (simp add: map_of_eq_None_iff)
  qed
  with assms show ?thesis
    by (simp add: res plain_storage_def list_all_iff cols)
qed

lemma refresh_plain_storage:
  assumes "plain_storage (browse_class_of self)"
  shows "plain_storage (browse_class_of (fst (fst (refresh srv self obj ctx))))"
proof -
  have kept: "plain_storage (browse_class_of (fst (fst (reset (logged self c) o1))))" for c o1
    using assms reset_plain_storage[of "logged self c" o1] by (simp add: logged_def)
  have same: "plain_storage (browse_class_of (logged self c))" for c
    using assms by (simp add: logged_def)
  show ?thesis
  proof (cases "truthy (rec_id obj)")
    case True
    show ?thesis
      unfolding refresh_with_id[OF True] Let_def
      by (simp add: kept same split: sum.splits)
  next
    case False
    show ?thesis
      unfolding refresh_draft[OF False] Let_def
      by (simp add: kept same split: sum.splits)
  qed
qed

text \<open>
  Claim C3, amended. Take a refresh that completes. For a record without an id,
  \<open>raw_data\<close> is a dictionary with an entry for every column of the schema, the
  generated \<open>name\<close> included. For a record with an id, \<open>raw_data\<close> is the first item
  of the answer to the read, whatever entries it has. If no field of the schema is
  named like the storage attribute \<open>_<field>\<close> of a field, \<open>fields_updated\<close> is
  empty.
\<close>

theorem refresh_completes:
  assumes "snd (refresh srv self obj ctx) = Inr u"
  shows "(plain_storage (browse_class_of self) \<longrightarrow>
            fields_updated (snd (fst (refresh srv self obj ctx))) = [])
       \<and> (if truthy (rec_id obj)
          then \<exists>res. srv (calls (oerp_of self))
                        (context_request self ''read'' [VList [rec_id obj], VNone]
                           (context_or_empty ctx)) = Inr res
                 \<and> py_getitem0 res = Inr (raw_data (snd (fst (refresh srv self obj ctx))))
          else \<exists>d. raw_data (snd (fst (refresh srv self obj ctx))) = VDict d
                 \<and> (\<forall>f \<in> set (py_keys (columns (browse_class_of self))). map_of d f \<noteq> None))"
proof (cases "truthy (rec_id obj)")
  case True
  from assms have "\<exists>res. srv (calls (oerp_of self))
                        (context_request self ''read'' [VList [rec_id obj], VNone]
                           (context_or_empty ctx)) = Inr res
                 \<and> py_getitem0 res = Inr (raw_data (snd (fst (refresh srv self obj ctx))))"
    unfolding refresh_with_id[OF True] Let_def
    by (auto simp: reset_raw_data split: sum.splits if_splits)
  with True refresh_ok_clean[OF assms] show ?thesis by simp
next
  case False
  let ?keys = "py_keys (columns (browse_class_of self))"
  let ?filled = "foldl (\<lambda>acc field_name. AList.update field_name (VBool False) acc) [] ?keys"
  from assms obtain dg where
    kvs: "raw_data (snd (fst (refresh srv self obj ctx))) = VDict (fst (py_update ?filled dg))"
    unfolding refresh_draft[OF False] Let_def
    by (auto simp: reset_raw_data split: sum.splits)
  have "\<forall>f \<in> set ?keys. map_of (fst (py_update ?filled dg)) f \<noteq> None"
  proof
    fix f assume "f \<in> set ?keys"
    then have "map_of ?filled f \<noteq> None"
      using fill_keys[of "VBool False" "[]" ?keys f] by simp
    from py_update_keeps_keys[OF this] show "map_of (fst (py_update ?filled dg)) f \<noteq> None" .
  qed
  with kvs False refresh_ok_clean[OF assms] show ?thesis by simp
qed

theorem refresh_completes_witness:
  "snd (refresh demo_server demo_osv (new_record (VBool False)) VNone) = Inr ()
   \<and> plain_storage (browse_class_of demo_osv)
   \<and> \<not> truthy (rec_id (new_record (VBool False)))
   \<and> fields_updated (snd (fst (refresh demo_server demo_osv (new_record (VBool False)) VNone))) = []
   \<and> raw_data (snd (fst (refresh demo_server demo_osv (new_record (VBool False)) VNone)))
       = VDict [(''name'', VStr ''New''), (''partner_id'', VBool False)]
   \<and> set (py_keys (columns (browse_class_of demo_osv))) = {''name'', ''partner_id''}"
proof -
  have run: "refresh demo_server demo_osv (new_record (VBool False)) VNone
     = ((logged (demo_osv\<lparr>browse_class_of := demo_class\<lparr>cls_attrs :=
             [(''name'', name_column), (''partner_id'', partner_column)]\<rparr>\<rparr>)
           (ExecuteKw ''res.partner'' ''default_get'' [VList [VStr ''name'', VStr ''partner_id'']]
              [(''context'', VDict [])]),
         \<lparr>rec_id = VBool False, data_context = VDict [],
          raw_data = VDict [(''name'', VStr ''New''), (''partner_id'', VBool False)],
          fields_updated = [],
          attrs = [(''_name'', VStr ''New''), (''_partner_id'', VBool False)]\<rparr>),
        Inr ())"
    by (simp add: Let_def refresh_def rpc_method_def execute_kw_def answers_def demo_osv_def demo_conn_def
        demo_class_def demo_server_def demo_table_def new_record_def reset_def py_setattr.simps
        py_values_def py_items_def py_keys_def name_column_def partner_column_def attr_name_def
        logged_def)
  have ok: "snd (refresh demo_server demo_osv (new_record (VBool False)) VNone) = Inr ()"
    by (simp add: run)
  have plain: "plain_storage (browse_class_of demo_osv)"
    by (simp add: plain_storage_def demo_osv_def demo_class_def py_values_def py_items_def
          name_column_def partner_column_def attr_name_def)
  from refresh_completes[OF ok] run plain show ?thesis
    by (simp add: new_record_def demo_osv_def demo_class_def py_keys_def py_items_def insert_commute)
qed

subsection \<open>Forwarded methods\<close>

text \<open>
  Claim C6. In compatibility mode a dynamically forwarded method called with a keyword
  argument raises the error "Named parameters are not supported in compatibility mode"
  and leaves the proxy, and so the log of remote calls, as it was; called without
  keyword arguments it issues exactly the positional call \<open>execute(name, method, *args)\<close>
  and returns the server's answer.
\<close>

theorem rpc_method_compatible:
  "compatible (oerp_of self) \<Longrightarrow>
     rpc_method srv self m args kwargs =
       (if kwargs \<noteq> [] then (self, Inl (RPCError named_parameters_msg []))
        else (logged self (Execute (osv_name (browse_class_of self)) m args),
              srv (calls (oerp_of self)) (Execute (osv_name (browse_class_of self)) m args)))"
  by (simp add: rpc_method_def execute_def logged_def Let_def)

theorem rpc_method_compatible_witness:
  "compatible (oerp_of compat_osv)
   \<and> rpc_method demo_server compat_osv ''search'' [VList []] [(''limit'', VInt 5)]
       = (compat_osv, Inl (RPCError named_parameters_msg []))
   \<and> rpc_method demo_server compat_osv ''write'' [VList [VInt 1], VDict []] []
       = (logged compat_osv (Execute ''res.partner'' ''write'' [VList [VInt 1], VDict []]),
          Inr (VBool True))"
  using rpc_method_compatible[where self = compat_osv and srv = demo_server and m = "''search''"
          and args = "[VList []]" and kwargs = "[(''limit'', VInt 5)]"]
        rpc_method_compatible[where self = compat_osv and srv = demo_server and m = "''write''"
          and args = "[VList [VInt 1], VDict []]" and kwargs = "[]"]
  by (simp add: compat_osv_def compat_conn_def demo_class_def demo_server_def answers_def
        demo_table_def)

subsection \<open>The write payload\<close>

lemma write_vals_other:
  "write_vals cls obj fs acc = Inr vals \<Longrightarrow>
   \<not> (f \<in> set fs \<and> py_in f (raw_data obj) = Inr True) \<Longrightarrow>
   map_of vals f = map_of acc f"
proof (induction fs arbitrary: acc)
  case Nil
  then show ?case by simp
next
  case (Cons g rest)
  then show ?case
    by (auto simp: map_of_update split: sum.splits if_splits option.splits)
qed

lemma write_vals_sent:
  "write_vals cls obj fs acc = Inr vals \<Longrightarrow>
   py_in f (raw_data obj) = Inr True \<Longrightarrow>
   map_of (columns cls) f = Some fld \<Longrightarrow>
   map_of (attrs obj) (attr_name f) = Some v \<Longrightarrow>
   sent_value fld v = Inr x \<Longrightarrow>
   f \<in> set fs \<or> map_of acc f = Some x \<Longrightarrow>
   map_of vals f = Some x"
proof (induction fs arbitrary: acc)
  case Nil
  then show ?case by simp
next
  case (Cons g rest)
  show ?case
  proof (cases "g = f")
    case True
    with Cons.prems have
      "write_vals cls obj rest (AList.update f x acc) = Inr vals"
      by (auto simp: sent_value_def split: if_splits sum.splits)
    from Cons.IH[OF this Cons.prems(2,3,4,5)] show ?thesis
      by (simp add: map_of_update)
  next
    case False
    from Cons.prems(1) obtain acc' where
      step: "write_vals cls obj rest acc' = Inr vals" and same: "map_of acc' f = map_of acc f"
      using False
      by (auto simp: map_of_update split: sum.splits if_splits option.splits)
    from Cons.prems(6) False same have "f \<in> set rest \<or> map_of acc' f = Some x" by auto
    from Cons.IH[OF step Cons.prems(2,3,4,5) this] show ?thesis .
  qed
qed

lemma write_vals_defined:
  "write_vals cls obj fs acc = Inr vals \<Longrightarrow> f \<in> set fs \<Longrightarrow>
   py_in f (raw_data obj) = Inr True \<Longrightarrow>
   \<exists>fld v x. map_of (columns cls) f = Some fld \<and> map_of (attrs obj) (attr_name f) = Some v
      \<and> sent_value fld v = Inr x"
proof (induction fs arbitrary: acc)
  case Nil
  then show ?case by simp
next
  case (Cons g rest)
  show ?case
  proof (cases "g = f")
    case True
    with Cons.prems show ?thesis
      by (auto simp: sent_value_def split: if_splits sum.splits option.splits)
  next
    case False
    from Cons.prems(1) obtain acc' where
      step: "write_vals cls obj rest acc' = Inr vals"
      by (auto split: sum.splits if_splits option.splits)
    from Cons.prems(2) False have "f \<in> set rest" by simp
    from Cons.IH[OF step this Cons.prems(3)] show ?thesis .
  qed
qed

lemma value_not_own_pair: "i \<noteq> VList [i, lbl]"
proof
  assume "i = VList [i, lbl]"
  then have "size i = size (VList [i, lbl])" by simp
  then show False by simp
qed

text \<open>
  Claim C5. For a dirty Many2One field whose current value is the pair
  \<open>[id, label]\<close> that a read returns, the write payload holds the id alone under the
  field's name, not the pair.
\<close>

theorem write_vals_many2one_id:
  assumes "write_vals cls obj fs [] = Inr vals"
    and "f \<in> set fs"
    and "py_in f (raw_data obj) = Inr True"
    and "map_of (columns cls) f = Some fld"
    and "kind fld = RefSingle"
    and "map_of (attrs obj) (attr_name f) = Some (VList [i, lbl])"
  shows "map_of vals f = Some i \<and> map_of vals f \<noteq> Some (VList [i, lbl])"
proof -
  have "sent_value fld (VList [i, lbl]) = Inr i"
    using assms(5) by (simp add: sent_value_def)
  from write_vals_sent[OF assms(1,3,4,6) this] assms(2)
  have "map_of vals f = Some i" by simp
  then show ?thesis using value_not_own_pair[of i lbl] by simp
qed

text \<open>
  Claim C9. A field is in the write payload only if it is in \<open>fields_updated\<close> and
  \<open>field_name in raw_data\<close> holds; a dirty name for which the test is false is
  skipped by the loop: the payload is the one built from the remaining names, and no
  error is raised for it.
\<close>

theorem write_vals_only_raw_data_keys:
  "(write_vals cls obj fs [] = Inr vals \<longrightarrow> map_of vals f \<noteq> None \<longrightarrow>
      f \<in> set fs \<and> py_in f (raw_data obj) = Inr True)
   \<and> (py_in f (raw_data obj) = Inr False \<longrightarrow>
      write_vals cls obj (f # rest) acc = write_vals cls obj rest acc)"
proof (rule conjI)
  show "write_vals cls obj fs [] = Inr vals \<longrightarrow> map_of vals f \<noteq> None \<longrightarrow>
          f \<in> set fs \<and> py_in f (raw_data obj) = Inr True"
  proof (intro impI, rule ccontr)
    assume ok: "write_vals cls obj fs [] = Inr vals" and sent: "map_of vals f \<noteq> None"
      and "\<not> (f \<in> set fs \<and> py_in f (raw_data obj) = Inr True)"
    from write_vals_other[OF ok this(3)] sent show False by simp
  qed
next
  show "py_in f (raw_data obj) = Inr False \<longrightarrow>
          write_vals cls obj (f # rest) acc = write_vals cls obj rest acc"
    by simp
qed

theorem write_vals_only_raw_data_keys_witness:
  "write_vals demo_class (edited_record\<lparr>fields_updated := [''partner_id'', ''comment'']\<rparr>)
       [''partner_id'', ''comment''] [] = Inr [(''partner_id'', VInt 9)]
   \<and> map_of [(''partner_id'', VInt 9)] ''partner_id'' \<noteq> None
   \<and> ''partner_id'' \<in> set [''partner_id'', ''comment'']
   \<and> py_in ''partner_id'' (raw_data edited_record) = Inr True
   \<and> py_in ''comment'' (raw_data edited_record) = Inr False
   \<and> write_vals demo_class edited_record [''comment''] [] = Inr []"
  using write_vals_only_raw_data_keys[where cls = demo_class
          and obj = "edited_record\<lparr>fields_updated := [''partner_id'', ''comment'']\<rparr>"
          and fs = "[''partner_id'', ''comment'']" and vals = "[(''partner_id'', VInt 9)]"
          and f = "''partner_id''"]
        write_vals_only_raw_data_keys[where cls = demo_class and obj = edited_record
          and f = "''comment''" and rest = "[]" and acc = "[]"]
  by (simp add: demo_class_def edited_record_def partner_row_def partner_column_def
        name_column_def attr_name_def)

theorem write_vals_many2one_id_witness:
  "write_vals demo_class edited_record (fields_updated edited_record) []
     = Inr [(''partner_id'', VInt 9)]
   \<and> ''partner_id'' \<in> set (fields_updated edited_record)
   \<and> py_in ''partner_id'' (raw_data edited_record) = Inr True
   \<and> map_of (columns demo_class) ''partner_id'' = Some partner_column
   \<and> kind partner_column = RefSingle
   \<and> map_of (attrs edited_record) (attr_name ''partner_id'') = Some (VList [VInt 9, VStr ''Other''])
   \<and> map_of [(''partner_id'', VInt 9)] ''partner_id'' = Some (VInt 9)"
  using write_vals_many2one_id[where cls = demo_class and obj = edited_record
          and fs = "fields_updated edited_record" and vals = "[(''partner_id'', VInt 9)]"
          and f = "''partner_id''" and fld = partner_column and i = "VInt 9"
          and lbl = "VStr ''Other''"]
  by (simp add: demo_class_def edited_record_def partner_row_def partner_column_def
        name_column_def attr_name_def)

subsection \<open>Writing\<close>

lemma write_call_request:
  "write_call srv self obj vals ctx =
     (logged self (context_request self ''write'' [VList [rec_id obj], VDict vals] ctx),
      srv (calls (oerp_of self)) (context_request self ''write'' [VList [rec_id obj], VDict vals] ctx))"
  by (simp add: write_call_def read_call)

text \<open>
  Claim C4, as stated, fails in its second half: a successful write is followed by the
  refresh, and the dirtiness is cleared by that refresh only. When the write succeeds
  and the read of the refresh answers \<open>[False]\<close>, \<open>_write_record\<close> raises and
  \<open>partner_id\<close> is still in \<open>fields_updated\<close>. And for the entity with the fields
  \<open>_x\<close> and \<open>x\<close>, \<open>_write_record\<close> returns on a clean record with \<open>_x\<close> in
  \<open>fields_updated\<close>.
\<close>

theorem write_record_counterexample:
  "write_record (answers [(''write'', Inr (VBool True)), (''read'', Inr (VList [VBool False]))])
       demo_osv edited_record VNone
     = ((demo_osv\<lparr>oerp_of := demo_conn\<lparr>calls :=
              [ExecuteKw ''res.partner'' ''write'' [VList [VInt 1], VDict [(''partner_id'', VInt 9)]]
                 [(''context'', VNone)],
               ExecuteKw ''res.partner'' ''read'' [VList [VInt 1], VNone] [(''context'', VDict [])]]\<rparr>\<rparr>,
         edited_record\<lparr>raw_data := VBool False\<rparr>),
        Inl (RPCError no_record_msg [(''osv_name'', VStr ''res.partner''), (''obj_id'', VInt 1)]))
   \<and> fields_updated (edited_record\<lparr>raw_data := VBool False\<rparr>) = [''partner_id'']
   \<and> snd (write_record shadow_server shadow_osv (new_record (VInt 1)) VNone) = Inr (VBool True)
   \<and> fields_updated (snd (fst (write_record shadow_server shadow_osv (new_record (VInt 1)) VNone)))
       = [''_x'']"
  by (simp add: Let_def write_record_def write_call_def refresh_def rpc_method_def execute_kw_def
        answers_def demo_osv_def demo_conn_def demo_class_def edited_record_def partner_row_def
        shadow_osv_def shadow_class_def shadow_server_def new_record_def synthetic_name_def
        reset_def py_setattr.simps py_values_def py_items_def
        name_column_def partner_column_def attr_name_def)

text \<open>
  Claim C4, amended. Let \<open>vals\<close> be the payload built from the dirty fields. If the
  remote \<open>write\<close> fails, \<open>_write_record\<close> raises the same exception and the record
  is exactly as before, \<open>fields_updated\<close> included. If it succeeds, the outcome is
  that of \<open>_refresh\<close> on the record, with the answer of \<open>write\<close> as result: an
  exception of the refresh is raised by \<open>_write_record\<close>, and whenever
  \<open>_write_record\<close> returns, \<open>fields_updated\<close> is empty, if no field of the schema
  is named like the storage attribute \<open>_<field>\<close> of a field.
\<close>

theorem write_record_outcome:
  assumes "write_vals (browse_class_of self) obj (fields_updated obj) [] = Inr vals"
  shows "(\<forall>exc. srv (calls (oerp_of self))
                  (context_request self ''write'' [VList [rec_id obj], VDict vals] ctx) = Inl exc \<longrightarrow>
            write_record srv self obj ctx =
              ((logged self (context_request self ''write'' [VList [rec_id obj], VDict vals] ctx), obj),
               Inl exc))
       \<and> (\<forall>res. srv (calls (oerp_of self))
                  (context_request self ''write'' [VList [rec_id obj], VDict vals] ctx) = Inr res \<longrightarrow>
            write_record srv self obj ctx =
              (fst (refresh srv
                      (logged self (context_request self ''write'' [VList [rec_id obj], VDict vals] ctx))
                      obj ctx),
               case snd (refresh srv
                      (logged self (context_request self ''write'' [VList [rec_id obj], VDict vals] ctx))
                      obj ctx) of
                 Inl e \<Rightarrow> Inl e
               | Inr u \<Rightarrow> Inr res))
       \<and> (\<forall>res. plain_storage (browse_class_of self) \<longrightarrow>
            snd (write_record srv self obj ctx) = Inr res \<longrightarrow>
            fields_updated (snd (fst (write_record srv self obj ctx))) = [])"
proof (intro conjI allI impI)
  fix exc
  assume "srv (calls (oerp_of self))
            (context_request self ''write'' [VList [rec_id obj], VDict vals] ctx) = Inl exc"
  with assms show "write_record srv self obj ctx =
      ((logged self (context_request self ''write'' [VList [rec_id obj], VDict vals] ctx), obj), Inl exc)"
    by (simp add: write_record_def write_call_request)
next
  fix res
  assume "srv (calls (oerp_of self))
            (context_request self ''write'' [VList [rec_id obj], VDict vals] ctx) = Inr res"
  with assms show "write_record srv self obj ctx =
      (fst (refresh srv
              (logged self (context_request self ''write'' [VList [rec_id obj], VDict vals] ctx))
              obj ctx),
       case snd (refresh srv
              (logged self (context_request self ''write'' [VList [rec_id obj], VDict vals] ctx))
              obj ctx) of
         Inl e \<Rightarrow> Inl e
       | Inr u \<Rightarrow> Inr res)"
    by (simp add: write_record_def write_call_request split: prod.splits sum.splits)
next
  fix res
  assume plain: "plain_storage (browse_class_of self)"
    and ok: "snd (write_record srv self obj ctx) = Inr res"
  let ?c = "context_request self ''write'' [VList [rec_id obj], VDict vals] ctx"
  from ok assms have run:
    "snd (refresh srv (logged self ?c) obj ctx) = Inr ()
     \<and> fst (write_record srv self obj ctx) = fst (refresh srv (logged self ?c) obj ctx)"
    by (auto simp: write_record_def write_call_request split: prod.splits sum.splits)
  from plain have "plain_storage (browse_class_of (logged self ?c))"
    by (simp add: logged_def)
  from refresh_ok_clean[OF conjunct1[OF run] this] run
  show "fields_updated (snd (fst (write_record srv self obj ctx))) = []"
    by simp
qed

theorem write_record_outcome_witness:
  "write_vals (browse_class_of demo_osv) edited_record (fields_updated edited_record) []
     = Inr [(''partner_id'', VInt 9)]
   \<and> plain_storage (browse_class_of demo_osv)
   \<and> write_record (answers [(''write'', Inl (RemoteError ''access denied''))]) demo_osv edited_record VNone
     = ((logged demo_osv
           (ExecuteKw ''res.partner'' ''write'' [VList [VInt 1], VDict [(''partner_id'', VInt 9)]]
              [(''context'', VNone)]),
         edited_record),
        Inl (RemoteError ''access denied''))
   \<and> snd (write_record demo_server demo_osv edited_record VNone) = Inr (VBool True)
   \<and> fields_updated (snd (fst (write_record demo_server demo_osv edited_record VNone))) = []
   \<and> raw_data (snd (fst (write_record demo_server demo_osv edited_record VNone))) = partner_row"
proof -
  have vals: "write_vals (browse_class_of demo_osv) edited_record (fields_updated edited_record) []
     = Inr [(''partner_id'', VInt 9)]"
    by (simp add: demo_osv_def demo_class_def edited_record_def partner_row_def partner_column_def
          name_column_def attr_name_def)
  have req: "context_request demo_osv ''write''
               [VList [rec_id edited_record], VDict [(''partner_id'', VInt 9)]] VNone
     = ExecuteKw ''res.partner'' ''write'' [VList [VInt 1], VDict [(''partner_id'', VInt 9)]]
              [(''context'', VNone)]"
    by (simp add: context_request_def demo_osv_def demo_conn_def demo_class_def edited_record_def)
  have run: "write_record demo_server demo_osv edited_record VNone
     = ((\<lparr>oerp_of = demo_conn\<lparr>calls :=
              [ExecuteKw ''res.partner'' ''write'' [VList [VInt 1], VDict [(''partner_id'', VInt 9)]]
                 [(''context'', VNone)],
               ExecuteKw ''res.partner'' ''read'' [VList [VInt 1], VNone] [(''context'', VDict [])]]\<rparr>,
           name_of = ''res.partner'',
           browse_class_of = demo_class\<lparr>cls_attrs :=
              [(''name'', name_column), (''partner_id'', partner_column)]\<rparr>\<rparr>,
         \<lparr>rec_id = VInt 1, data_context = VDict [], raw_data = partner_row, fields_updated = [],
          attrs = [(''_name'', VStr ''Acme''), (''_partner_id'', VList [VInt 7, VStr ''Acme Corp''])]\<rparr>),
        Inr (VBool True))"
    by (simp add: Let_def write_record_def write_call_def refresh_def rpc_method_def execute_kw_def
          answers_def demo_osv_def demo_conn_def demo_class_def demo_server_def demo_table_def
          edited_record_def partner_row_def reset_def py_setattr.simps py_values_def py_items_def
          name_column_def partner_column_def attr_name_def)
  have plain: "plain_storage (browse_class_of demo_osv)"
    by (simp add: plain_storage_def demo_osv_def demo_class_def py_values_def py_items_def
          name_column_def partner_column_def attr_name_def)
  from write_record_outcome[OF vals, of "answers [(''write'', Inl (RemoteError ''access denied''))]" VNone]
       write_record_outcome[OF vals, of demo_server VNone]
       vals run plain
  show ?thesis
    by (simp add: req answers_def)
qed

subsection \<open>The generated class\<close>

lemma generate_fields_dom:
  "generate_fields kinds items acc = Inr cf \<Longrightarrow>
     dom (map_of cf) = dom (map_of acc) \<union> {k \<in> fst ` set items. k \<notin> set fields_reserved}"
proof (induction items arbitrary: acc)
  case Nil
  then show ?case by simp
next
  case (Cons item rest)
  obtain field_name field_data where item: "item = (field_name, field_data)" by (cases item)
  show ?case
  proof (cases "field_name \<in> set fields_reserved")
    case True
    with Cons.prems item have "generate_fields kinds rest acc = Inr cf"
      by simp
    from Cons.IH[OF this] True item show ?thesis by auto
  next
    case False
    with Cons.prems item obtain f where
      "generate_fields kinds rest (AList.update field_name f acc) = Inr cf"
      by (auto split: sum.splits)
    from Cons.IH[OF this] have
      "dom (map_of cf) = dom (map_of (AList.update field_name f acc))
                           \<union> {k \<in> fst ` set rest. k \<notin> set fields_reserved}" .
    moreover have "dom (map_of (AList.update field_name f acc)) = insert field_name (dom (map_of acc))"
      by (simp add: map_of_update)
    ultimately show ?thesis using False item by auto
  qed
qed

lemma generate_field_name:
  "generate_field kinds ''name'' name_field_data = Inr f \<Longrightarrow>
     \<exists>k. kinds ''text'' = Some k
        \<and> f = \<lparr>name = ''name'', kind = k, label = VStr ''Name'', read_only = True\<rparr>"
  by (auto simp: generate_field_def name_field_data_def dict_get_def split: option.splits)

lemma reserved_not_name: "''name'' \<notin> set fields_reserved"
  by (simp add: fields_reserved_def)

text \<open>
  Claim C8. When \<open>_generate_browse_class\<close> returns a class, none of the reserved
  names \<open>id\<close>, \<open>__oerp__\<close>, \<open>__osv__\<close>, \<open>__data__\<close> is a column of it: the columns
  are the fields of the server's schema that are not reserved, and \<open>name\<close>. When the
  server's schema has no field \<open>name\<close>, the column \<open>name\<close> is the descriptor
  generated from \<open>{'type': 'text', 'string': 'Name', 'readonly': True}\<close>: a read-only
  text descriptor.
\<close>

theorem generate_browse_class_columns:
  assumes "generate_browse_class kinds srv conn nm = (conn', Inr cls)"
  shows "(\<forall>r \<in> set fields_reserved. map_of (columns cls) r = None)
       \<and> (\<exists>kvs. srv (calls conn) (Execute nm ''fields_get'' []) = Inr (VDict kvs)
            \<and> dom (map_of (columns cls)) = (dom (map_of kvs) - set fields_reserved) \<union> {''name''}
            \<and> (map_of kvs ''name'' = None \<longrightarrow>
                 (\<exists>k. kinds ''text'' = Some k
                    \<and> map_of (columns cls) ''name''
                        = Some \<lparr>name = ''name'', kind = k, label = VStr ''Name'', read_only = True\<rparr>)))"
proof -
  from assms obtain kvs where
    ans: "srv (calls conn) (Execute nm ''fields_get'' []) = Inr (VDict kvs)"
    by (auto simp: generate_browse_class_def execute_def Let_def split: sum.splits py_value.splits)
  from assms ans obtain cls_fields where
    gen: "generate_fields kinds (py_items kvs) [] = Inr cls_fields"
    by (auto simp: generate_browse_class_def execute_def Let_def split: sum.splits)
  have "fst ` set (py_items kvs) = dom (map_of kvs)"
    by (simp add: py_items_def dom_clearjunk dom_map_of_conv_image_fst)
  then have keys: "dom (map_of cls_fields) = dom (map_of kvs) - set fields_reserved"
    using generate_fields_dom[OF gen] by auto
  show ?thesis
  proof (cases "map_of cls_fields ''name''")
    case None
    with assms ans gen obtain f where
      f: "generate_field kinds ''name'' name_field_data = Inr f"
      and cols: "columns cls = AList.update ''name'' f cls_fields"
      by (auto simp: generate_browse_class_def execute_def Let_def split: sum.splits)
    from generate_field_name[OF f] obtain k where
      k: "kinds ''text'' = Some k"
         "f = \<lparr>name = ''name'', kind = k, label = VStr ''Name'', read_only = True\<rparr>"
      by blast
    have d: "dom (map_of (columns cls)) = (dom (map_of kvs) - set fields_reserved) \<union> {''name''}"
      using keys cols by (auto simp: map_of_update)
    have "\<forall>r \<in> set fields_reserved. map_of (columns cls) r = None"
      using d reserved_not_name by (metis DiffD2 Un_iff domIff singletonD)
    with ans d k cols show ?thesis
      by (auto simp: map_of_update)
  next
    case (Some f0)
    with assms ans gen have cols: "columns cls = cls_fields"
      by (auto simp: generate_browse_class_def execute_def Let_def split: sum.splits)
    from Some keys have named: "map_of kvs ''name'' \<noteq> None" by auto
    have d: "dom (map_of (columns cls)) = (dom (map_of kvs) - set fields_reserved) \<union> {''name''}"
      using keys cols Some by auto
    have "\<forall>r \<in> set fields_reserved. map_of (columns cls) r = None"
      using keys cols by auto
    with ans d named show ?thesis by auto
  qed
qed

lemma OSV_unnamed:
  "OSV demo_kinds unnamed_server demo_conn ''res.partner''
     = (oerp_of (logged unnamed_osv (Execute ''res.partner'' ''fields_get'' [])),
        Inr (logged unnamed_osv (Execute ''res.partner'' ''fields_get'' [])))"
  by (simp add: OSV_def generate_browse_class_def execute_def unnamed_server_def answers_def
        unnamed_fields_def demo_conn_def py_items_def generate_field_def dict_get_def
        demo_kinds_def fields_reserved_def name_field_data_def class_name_def
        logged_def unnamed_osv_def unnamed_class_def partner_column_def synthetic_name_def)

text \<open>
  The class generated for the schema \<open>unnamed_fields\<close>, which has \<open>id\<close> and
  \<open>partner_id\<close> and no \<open>name\<close>.
\<close>

theorem generate_browse_class_columns_witness:
  "generate_browse_class demo_kinds unnamed_server demo_conn ''res.partner''
     = (demo_conn\<lparr>calls := [Execute ''res.partner'' ''fields_get'' []]\<rparr>, Inr unnamed_class)
   \<and> map_of (columns unnamed_class) ''id'' = None
   \<and> map_of (columns unnamed_class) ''__oerp__'' = None
   \<and> map_of (columns unnamed_class) ''__osv__'' = None
   \<and> map_of (columns unnamed_class) ''__data__'' = None
   \<and> map_of (columns unnamed_class) ''name'' = Some synthetic_name
   \<and> read_only synthetic_name \<and> kind synthetic_name = Text"
proof -
  have run: "generate_browse_class demo_kinds unnamed_server demo_conn ''res.partner''
     = (demo_conn\<lparr>calls := [Execute ''res.partner'' ''fields_get'' []]\<rparr>, Inr unnamed_class)"
    by (simp add: generate_browse_class_def execute_def unnamed_server_def answers_def
        unnamed_fields_def demo_conn_def py_items_def generate_field_def dict_get_def
        demo_kinds_def fields_reserved_def name_field_data_def class_name_def
        unnamed_class_def partner_column_def synthetic_name_def)
  from generate_browse_class_columns[OF run] run show ?thesis
    by (simp add: unnamed_class_def synthetic_name_def fields_reserved_def)
qed

text \<open>
  Generation does return a class whenever the server answers \<open>fields_get\<close> with a
  dictionary whose fields, the reserved ones apart, have a recognised type, and
  \<open>text\<close> is a recognised type.
\<close>

lemma generate_fields_succeeds:
  "(\<forall>(k, d) \<in> set items. k \<notin> set fields_reserved \<longrightarrow> (\<exists>f. generate_field kinds k d = Inr f))
   \<Longrightarrow> \<exists>cf. generate_fields kinds items acc = Inr cf"
proof (induction items arbitrary: acc)
  case Nil
  show ?case by simp
next
  case (Cons item rest)
  obtain field_name field_data where item: "item = (field_name, field_data)" by (cases item)
  from Cons.prems have rest: "\<forall>(k, d) \<in> set rest. k \<notin> set fields_reserved \<longrightarrow>
      (\<exists>f. generate_field kinds k d = Inr f)"
    by simp
  show ?case
  proof (cases "field_name \<in> set fields_reserved")
    case True
    with item Cons.IH[OF rest, of acc] show ?thesis by simp
  next
    case False
    with Cons.prems item obtain f where f: "generate_field kinds field_name field_data = Inr f"
      by auto
    from Cons.IH[OF rest, of "AList.update field_name f acc"] False item f show ?thesis by simp
  qed
qed

lemma generate_browse_class_succeeds:
  assumes "srv (calls conn) (Execute nm ''fields_get'' []) = Inr (VDict kvs)"
    and "\<forall>(k, d) \<in> set (py_items kvs). k \<notin> set fields_reserved \<longrightarrow>
           (\<exists>f. generate_field kinds k d = Inr f)"
    and "kinds ''text'' = Some t"
  shows "\<exists>cls. snd (generate_browse_class kinds srv conn nm) = Inr cls"
proof -
  from generate_fields_succeeds[OF assms(2), of "[]"] obtain cf where
    cf: "generate_fields kinds (py_items kvs) [] = Inr cf" ..
  have nm: "\<exists>f. generate_field kinds ''name'' name_field_data = Inr f"
    using assms(3) by (simp add: generate_field_def name_field_data_def dict_get_def)
  then obtain f where f: "generate_field kinds ''name'' name_field_data = Inr f" ..
  show ?thesis
    using assms(1) cf f
    by (simp add: generate_browse_class_def execute_def Let_def)
qed

subsection \<open>The pool\<close>

lemma wf_pool_empty: "wf_pool empty_pool"
  by (simp add: wf_pool_def empty_pool_def)


lemma wf_pool_class:
  "wf_pool p \<Longrightarrow> map_of (factories_by_osv_class p) c = Some facto \<Longrightarrow> facto < length (heap p)"
  by (auto simp: wf_pool_def list_all_iff dest!: map_of_SomeD)

lemma list_all_update:
  "list_all (\<lambda>(k, r). P r) al \<Longrightarrow> P v \<Longrightarrow> list_all (\<lambda>(k, r). P r) (AList.update k v al)"
  by (induction al) auto

lemma list_all_delete:
  "list_all P al \<Longrightarrow> list_all P (AList.delete k al)"
  by (induction al) auto

lemma list_all_mono_less:
  "list_all (\<lambda>(k, r). r < n) al \<Longrightarrow> n \<le> m \<Longrightarrow> list_all (\<lambda>(k, r). r < (m::nat)) al"
  by (induction al) auto

lemma wf_pool_get: "wf_pool p \<Longrightarrow> wf_pool (fst (get intro p n r))"
  by (auto simp: get_def Factory_def osv_class_def wf_pool_def Let_def
        intro!: list_all_update intro: list_all_mono_less
        split: option.splits sum.splits if_splits)

lemma wf_pool_delitem: "wf_pool p \<Longrightarrow> wf_pool (fst (delitem p n))"
  by (auto simp: delitem_def clear_def index_getitem_def wf_pool_def Let_def
        intro!: list_all_delete split: option.splits sum.splits if_splits)

lemma get_cached_identical:
  "get intro p n False = (p1, Inr facto) \<Longrightarrow> get intro p1 n False = (p1, Inr facto)"
  by (auto simp: get_def Factory_def osv_class_def index_getitem_def Let_def map_of_update
        split: option.splits sum.splits if_splits)

lemma get_registers_class:
  "map_of (factories_by_osv_name p) n = None \<Longrightarrow> get intro p n r = (p', Inr facto) \<Longrightarrow>
     osv_class p' facto = Inr (classes p) \<and> get_by_class p' (classes p) = Inr facto"
  by (auto simp: get_def Factory_def osv_class_def index_getitem_def get_by_class_def Let_def
        map_of_update nth_append split: option.splits sum.splits if_splits)

lemma get_refresh_class_index:
  "map_of (factories_by_osv_name p) n \<noteq> None \<Longrightarrow>
     factories_by_osv_class (fst (get intro p n True)) = factories_by_osv_class p"
  by (auto simp: get_def Factory_def Let_def split: option.splits sum.splits)

text \<open>
  Claim C1, at the input where the code departs from it. On an empty pool,
  \<open>get('res.partner')\<close> creates proxy 0 with class 0 and enters it in both indices;
  \<open>get('res.partner', refresh=True)\<close> then returns the new proxy 1 with class 1 and
  replaces the entry of the name index, and leaves the class index as it was: class 1
  is unknown to \<open>get_by_class\<close> and class 0 still leads to the replaced proxy 0.
\<close>

theorem get_refresh_skips_class_index:
  "get no_failure empty_pool ''res.partner'' False
     = (\<lparr>heap = [\<lparr>fac_name = ''res.partner'', fac_class = 0, fac_keys = []\<rparr>], classes = 1,
         factories_by_osv_name = [(''res.partner'', 0)], factories_by_osv_class = [(0, 0)]\<rparr>,
        Inr 0)
   \<and> get no_failure (fst (get no_failure empty_pool ''res.partner'' False)) ''res.partner'' True
     = (\<lparr>heap = [\<lparr>fac_name = ''res.partner'', fac_class = 0, fac_keys = []\<rparr>,
                 \<lparr>fac_name = ''res.partner'', fac_class = 1, fac_keys = []\<rparr>], classes = 2,
         factories_by_osv_name = [(''res.partner'', 1)], factories_by_osv_class = [(0, 0)]\<rparr>,
        Inr 1)
   \<and> get_by_class
        (fst (get no_failure (fst (get no_failure empty_pool ''res.partner'' False)) ''res.partner'' True))
        1 = Inl KeyError
   \<and> get_by_class
        (fst (get no_failure (fst (get no_failure empty_pool ''res.partner'' False)) ''res.partner'' True))
        0 = Inr 0"
  by (simp add: get_def Factory_def osv_class_def index_getitem_def get_by_class_def Let_def
        no_failure_def empty_pool_def)




end
